theory Spec2Isabelle
  imports Complex_Main
begin

section \<open>The LCR-6300 sweep-file reader of analysis.py\<close>

text \<open>
  A shallow embedding of \<^verbatim>\<open>read_lcr_csv_lcr6300\<close> and of the loading loop that
  follows it in \<^verbatim>\<open>analysis.py\<close>.

  Conventions of the model.
  \<^item> A Python \<^verbatim>\<open>str\<close> is a \<open>string\<close>: a list of characters, each a code point below 256.
  \<^item> A file is the list of its lines, as line 56 of the source builds it; the file
    system is a map from file names to such lists. A path is its last component, the
    only part the reader uses besides opening the file.
  \<^item> A Python \<^verbatim>\<open>float\<close> is a \<open>pyfloat\<close>: a real number, an infinity or NaN. Arithmetic
    on finite values is exact: rounding and overflow of IEEE doubles are not modelled.
  \<^item> An exception is a value \<open>Error cls msg\<close> on the left of a sum. Reading a file
    that exists always succeeds: errors of the operating system are not modelled.
  \<^item> Integers are \<open>int\<close>, as in Python: \<open>num_freq\<close>, \<open>trim_first_n\<close> and the column
    index may be zero or negative, and the model says what the source does then.
  \<^item> The names are those of the source, but for the loop variable \<^verbatim>\<open>ln\<close>, written
    \<open>line\<close> here (\<open>ln\<close> is the logarithm).
\<close>

subsection \<open>String operations of Python\<close>

text \<open>\<^verbatim>\<open>str.isspace\<close> on one character: the code points below 256 that Python treats as white space.\<close>

definition py_isspace :: "char \<Rightarrow> bool" where
  "py_isspace c = (c \<in> set [CHR 0x09, CHR 0x0A, CHR 0x0B, CHR 0x0C, CHR 0x0D,
                               CHR 0x1C, CHR 0x1D, CHR 0x1E, CHR 0x1F, CHR 0x20,
                               CHR 0x85, CHR 0xA0])"

text \<open>The ten decimal digits: what \<^verbatim>\<open>float()\<close> reads as a digit.\<close>

definition is_dec :: "char \<Rightarrow> bool" where
  "is_dec c = (c \<in> set ''0123456789'')"

text \<open>\<^verbatim>\<open>str.isdigit\<close> on one character: the decimal digits and the superscripts 2, 3 and 1.\<close>

definition py_isdigit :: "char \<Rightarrow> bool" where
  "py_isdigit c = (is_dec c \<or> c \<in> set [CHR 0xB2, CHR 0xB3, CHR 0xB9])"

text \<open>\<^verbatim>\<open>s.strip()\<close> and \<^verbatim>\<open>s.strip('"')\<close>.\<close>

definition strip_where :: "(char \<Rightarrow> bool) \<Rightarrow> string \<Rightarrow> string" where
  "strip_where p s = rev (dropWhile p (rev (dropWhile p s)))"

definition py_strip :: "string \<Rightarrow> string" where
  "py_strip s = strip_where py_isspace s"

definition strip_quotes :: "string \<Rightarrow> string" where
  "strip_quotes s = strip_where (\<lambda>c. c = CHR 0x22) s"

text \<open>\<^verbatim>\<open>s.split(',')\<close>: never empty; the second case of the inner match cannot occur.\<close>

fun split_comma :: "string \<Rightarrow> string list" where
  "split_comma [] = [[]]"
| "split_comma (c # cs) =
     (if c = CHR '','' then [] # split_comma cs
      else (case split_comma cs of p # ps \<Rightarrow> (c # p) # ps | [] \<Rightarrow> [[c]]))"

text \<open>\<^verbatim>\<open>s.startswith(p)\<close> and \<^verbatim>\<open>p in s\<close> (substring).\<close>

fun py_startswith :: "string \<Rightarrow> string \<Rightarrow> bool" where
  "py_startswith s [] = True"
| "py_startswith [] (p # ps) = False"
| "py_startswith (c # cs) (p # ps) = (c = p \<and> py_startswith cs ps)"

fun py_in :: "string \<Rightarrow> string \<Rightarrow> bool" where
  "py_in p [] = (p = [])"
| "py_in p (c # cs) = (py_startswith (c # cs) p \<or> py_in p cs)"

text \<open>\<^verbatim>\<open>xs.index(x)\<close> for an \<open>x\<close> that occurs in \<open>xs\<close> (the source tests \<^verbatim>\<open>x in xs\<close> first).\<close>

fun py_index :: "'a list \<Rightarrow> 'a \<Rightarrow> nat" where
  "py_index [] x = 0"
| "py_index (y # ys) x = (if y = x then 0 else Suc (py_index ys x))"

text \<open>\<^verbatim>\<open>s.replace('+', '')\<close>.\<close>

definition remove_plus :: "string \<Rightarrow> string" where
  "remove_plus s = filter (\<lambda>c. c \<noteq> CHR ''+'') s"

text \<open>\<^verbatim>\<open>str(n)\<close> for an integer.\<close>

definition digit_char :: "nat \<Rightarrow> char" where
  "digit_char d = ''0123456789'' ! d"

fun str_nat :: "nat \<Rightarrow> string" where
  "str_nat n = (if n < 10 then [digit_char n] else str_nat (n div 10) @ [digit_char (n mod 10)])"

declare str_nat.simps [simp del]

definition str_int :: "int \<Rightarrow> string" where
  "str_int i = (if i < 0 then CHR ''-'' # str_nat (nat (- i)) else str_nat (nat i))"

subsection \<open>Floats\<close>

datatype pyfloat = Finite real | PosInf | NegInf | NaN

text \<open>
  \<^verbatim>\<open>float(s)\<close> on a string, following the grammar of the language reference:
  optional sign, then \<^verbatim>\<open>inf\<close>, \<^verbatim>\<open>infinity\<close> or \<^verbatim>\<open>nan\<close> in any case, or a decimal number with
  an optional fraction and an optional exponent; white space around it is dropped, and
  an underscore may stand between two digits. \<open>None\<close> is the \<^verbatim>\<open>ValueError\<close>.

  The white space that \<^verbatim>\<open>float()\<close> drops is not that of \<^verbatim>\<open>str.strip\<close>: the separators U+001C
  to U+001F are white space for \<^verbatim>\<open>str.isspace\<close> but stay in the text that \<^verbatim>\<open>float()\<close> parses,
  which then fails.
\<close>

definition float_isspace :: "char \<Rightarrow> bool" where
  "float_isspace c = (c \<in> set [CHR 0x09, CHR 0x0A, CHR 0x0B, CHR 0x0C, CHR 0x0D, CHR 0x20,
                                  CHR 0x85, CHR 0xA0])"

definition digit_val :: "char \<Rightarrow> nat" where
  "digit_val c = py_index ''0123456789'' c"

definition nat_of_digits :: "string \<Rightarrow> nat" where
  "nat_of_digits ds = foldl (\<lambda>a d. 10 * a + digit_val d) 0 ds"

text \<open>An underscore is allowed only after a digit and before a digit (\<open>prev\<close> is the character before).\<close>

fun underscores_ok :: "char \<Rightarrow> string \<Rightarrow> bool" where
  "underscores_ok prev [] = (prev \<noteq> CHR ''_'')"
| "underscores_ok prev (c # cs) =
     (if c = CHR ''_'' then is_dec prev \<and> underscores_ok c cs
      else if prev = CHR ''_'' \<and> \<not> is_dec c then False
      else underscores_ok c cs)"

text \<open>An optional sign: whether it is a minus, and the rest.\<close>

fun take_sign :: "string \<Rightarrow> bool \<times> string" where
  "take_sign [] = (False, [])"
| "take_sign (c # cs) =
     (if c = CHR ''-'' then (True, cs) else if c = CHR ''+'' then (False, cs) else (False, c # cs))"

text \<open>The exponent part, or nothing; \<open>None\<close> when what follows the number is neither.\<close>

definition exponent :: "string \<Rightarrow> int option" where
  "exponent s =
     (case s of [] \<Rightarrow> Some 0
      | c # t \<Rightarrow>
          if c = CHR ''e'' \<or> c = CHR ''E'' then
            (case take_sign t of (neg, ds) \<Rightarrow>
               if ds \<noteq> [] \<and> list_all is_dec ds
               then Some (if neg then - int (nat_of_digits ds) else int (nat_of_digits ds))
               else None)
          else None)"

definition scale10 :: "real \<Rightarrow> int \<Rightarrow> real" where
  "scale10 m e = (if 0 \<le> e then m * 10 ^ nat e else m / 10 ^ nat (- e))"

text \<open>An unsigned decimal number: digits, optional point and digits, optional exponent.\<close>

definition decimal :: "string \<Rightarrow> real option" where
  "decimal s =
     (let ip = takeWhile is_dec s; r1 = dropWhile is_dec s;
          fp = (case r1 of [] \<Rightarrow> [] | c # t \<Rightarrow> if c = CHR ''.'' then takeWhile is_dec t else []);
          r2 = (case r1 of [] \<Rightarrow> [] | c # t \<Rightarrow> if c = CHR ''.'' then dropWhile is_dec t else r1)
      in if ip = [] \<and> fp = [] then None
         else (case exponent r2 of None \<Rightarrow> None
               | Some e \<Rightarrow> Some (scale10 (real (nat_of_digits (ip @ fp))) (e - int (length fp)))))"

text \<open>Lower case of the letters of \<^verbatim>\<open>inf\<close>, \<^verbatim>\<open>infinity\<close> and \<^verbatim>\<open>nan\<close>; other characters unchanged.\<close>

definition lower_letter :: "char \<Rightarrow> char" where
  "lower_letter c =
     (if c = CHR ''I'' then CHR ''i'' else if c = CHR ''N'' then CHR ''n''
      else if c = CHR ''F'' then CHR ''f'' else if c = CHR ''T'' then CHR ''t''
      else if c = CHR ''Y'' then CHR ''y'' else if c = CHR ''A'' then CHR ''a'' else c)"

definition float_literal :: "string \<Rightarrow> pyfloat option" where
  "float_literal s =
     (case take_sign s of (neg, r) \<Rightarrow>
        if map lower_letter r = ''inf'' \<or> map lower_letter r = ''infinity''
        then Some (if neg then NegInf else PosInf)
        else if map lower_letter r = ''nan'' then Some NaN
        else (case decimal r of None \<Rightarrow> None
              | Some v \<Rightarrow> Some (Finite (if neg then - v else v))))"

definition py_float :: "string \<Rightarrow> pyfloat option" where
  "py_float s =
     (if underscores_ok (CHR 0x00) s
      then float_literal (strip_where float_isspace (filter (\<lambda>c. c \<noteq> CHR ''_'') s))
      else None)"

text \<open>
  Addition and multiplication of floats, with the IEEE rules for infinities and NaN, and
  numpy's \<^verbatim>\<open>mean\<close> of a row: the sum divided by the count.
\<close>

fun fadd :: "pyfloat \<Rightarrow> pyfloat \<Rightarrow> pyfloat" where
  "fadd NaN y = NaN"
| "fadd x NaN = NaN"
| "fadd (Finite a) (Finite b) = Finite (a + b)"
| "fadd PosInf NegInf = NaN"
| "fadd NegInf PosInf = NaN"
| "fadd PosInf y = PosInf"
| "fadd NegInf y = NegInf"
| "fadd (Finite a) y = y"

definition inf_of_sign :: "real \<Rightarrow> pyfloat" where
  "inf_of_sign a = (if a = 0 then NaN else if 0 < a then PosInf else NegInf)"

fun fmul :: "pyfloat \<Rightarrow> pyfloat \<Rightarrow> pyfloat" where
  "fmul NaN y = NaN"
| "fmul x NaN = NaN"
| "fmul (Finite a) (Finite b) = Finite (a * b)"
| "fmul (Finite a) PosInf = inf_of_sign a"
| "fmul (Finite a) NegInf = inf_of_sign (- a)"
| "fmul PosInf (Finite b) = inf_of_sign b"
| "fmul NegInf (Finite b) = inf_of_sign (- b)"
| "fmul PosInf PosInf = PosInf"
| "fmul NegInf NegInf = PosInf"
| "fmul PosInf NegInf = NegInf"
| "fmul NegInf PosInf = NegInf"

definition fsum :: "pyfloat list \<Rightarrow> pyfloat" where
  "fsum xs = foldl fadd (Finite 0) xs"

definition np_mean :: "pyfloat list \<Rightarrow> pyfloat" where
  "np_mean xs =
     (if xs = [] then NaN
      else (case fsum xs of Finite a \<Rightarrow> Finite (a / real (length xs)) | s \<Rightarrow> s))"

subsection \<open>Exceptions, indexing and slicing\<close>

datatype exc_class = FileNotFoundError | ValueError | IndexError | ZeroDivisionError

datatype error = Error exc_class string

fun exc_type :: "error \<Rightarrow> exc_class" where
  "exc_type (Error cls msg) = cls"

fun message :: "error \<Rightarrow> string" where
  "message (Error cls msg) = msg"

text \<open>\<^verbatim>\<open>xs[i]\<close>: a negative index counts from the end; out of range raises.\<close>

definition py_nth :: "'a list \<Rightarrow> int \<Rightarrow> error + 'a" where
  "py_nth xs i =
     (if - int (length xs) \<le> i \<and> i < int (length xs)
      then Inr (xs ! nat (if i < 0 then int (length xs) + i else i))
      else Inl (Error IndexError ''list index out of range''))"

text \<open>\<^verbatim>\<open>xs[:n]\<close>: a negative bound counts from the end.\<close>

definition py_slice_to :: "'a list \<Rightarrow> int \<Rightarrow> 'a list" where
  "py_slice_to xs n = (if 0 \<le> n then take (nat n) xs else take (nat (int (length xs) + n)) xs)"

subsection \<open>Arrays\<close>

text \<open>A two-dimensional array is the list of its rows. \<open>chunks r c xs\<close> cuts \<open>r\<close> rows of \<open>c\<close> entries.\<close>

fun chunks :: "nat \<Rightarrow> nat \<Rightarrow> 'a list \<Rightarrow> 'a list list" where
  "chunks 0 c xs = []"
| "chunks (Suc r) c xs = take c xs # chunks r c (drop c xs)"

definition reshape_error :: "nat \<Rightarrow> int \<Rightarrow> int \<Rightarrow> error" where
  "reshape_error n r c =
     Error ValueError (''cannot reshape array of size '' @ str_nat n @ '' into shape ('' @
                       str_int r @ '','' @ str_int c @ '')'')"

text \<open>
  \<^verbatim>\<open>np.array(xs).reshape((r, c))\<close>: the sizes must multiply to the length; one negative
  size is inferred from the other, two are refused.
\<close>

definition np_reshape :: "int \<Rightarrow> int \<Rightarrow> 'a list \<Rightarrow> error + 'a list list" where
  "np_reshape r c xs =
     (let n = int (length xs) in
      if r < 0 \<and> c < 0 then Inl (Error ValueError ''can only specify one unknown dimension'')
      else if r < 0 then
        (if c \<noteq> 0 \<and> n mod c = 0 then Inr (chunks (nat (n div c)) (nat c) xs)
         else Inl (reshape_error (length xs) r c))
      else if c < 0 then
        (if r \<noteq> 0 \<and> n mod r = 0 then Inr (chunks (nat r) (nat (n div r)) xs)
         else Inl (reshape_error (length xs) r c))
      else if r * c = n then Inr (chunks (nat r) (nat c) xs)
      else Inl (reshape_error (length xs) r c))"

subsection \<open>The reader\<close>

type_synonym file_system = "string \<Rightarrow> string list option"

text \<open>Lines 59 to 63: the first of the given lines that contains the column name, counted from \<open>i\<close>.\<close>

fun find_header :: "string \<Rightarrow> string list \<Rightarrow> nat \<Rightarrow> nat option" where
  "find_header col_name [] i = None"
| "find_header col_name (line # rest_lines) i =
     (if py_in col_name line then Some i else find_header col_name rest_lines (Suc i))"

text \<open>Lines 68 to 74: the loop over the lines after the header.\<close>

fun header_scan :: "string list \<Rightarrow> string list \<Rightarrow> string list" where
  "header_scan [] data_lines = data_lines"
| "header_scan (line # rest_lines) data_lines =
     (case py_strip line of
        [] \<Rightarrow> header_scan rest_lines data_lines
      | first # others \<Rightarrow>
          if first = CHR ''+'' \<or> py_isdigit first \<or> first = CHR ''-''
          then header_scan rest_lines (data_lines @ [line])
          else header_scan rest_lines data_lines)"

text \<open>Lines 77 to 79: the loop over all lines when there is no header.\<close>

fun fallback_scan :: "string list \<Rightarrow> string list \<Rightarrow> string list" where
  "fallback_scan [] data_lines = data_lines"
| "fallback_scan (line # rest_lines) data_lines =
     (if py_startswith (py_strip line) ''+''
      then fallback_scan rest_lines (data_lines @ [line])
      else fallback_scan rest_lines data_lines)"

definition collect_data_lines :: "nat option \<Rightarrow> string list \<Rightarrow> string list" where
  "collect_data_lines header_idx lines =
     (case header_idx of
        Some h \<Rightarrow> header_scan (drop (h + 1) lines) []
      | None \<Rightarrow> fallback_scan lines [])"

text \<open>The fields of a line: split on commas, each stripped of white space, then of quotes.\<close>

definition fields :: "string \<Rightarrow> string list" where
  "fields line = map (\<lambda>p. strip_quotes (py_strip p)) (split_comma line)"

text \<open>Lines 85 to 89: the column to read.\<close>

definition column_index :: "nat option \<Rightarrow> string list \<Rightarrow> string \<Rightarrow> int \<Rightarrow> int" where
  "column_index header_idx lines col_name fallback_col_index =
     (case header_idx of
        None \<Rightarrow> fallback_col_index
      | Some h \<Rightarrow>
          (let cols = fields (lines ! h)
           in if col_name \<in> set cols then int (py_index cols col_name)
              else fallback_col_index))"

text \<open>Lines 92 to 105: the loop over the data lines, \<open>values\<close> being the list built so far.\<close>

fun extract_values :: "int \<Rightarrow> string list \<Rightarrow> pyfloat list \<Rightarrow> error + pyfloat list" where
  "extract_values col_index [] values = Inr values"
| "extract_values col_index (line # rest_lines) values =
     (if int (length (fields line)) \<le> col_index then extract_values col_index rest_lines values
      else (case py_nth (fields line) col_index of
              Inl e \<Rightarrow> Inl e
            | Inr valstr \<Rightarrow>
                (case py_float valstr of
                   Some v \<Rightarrow> extract_values col_index rest_lines (values @ [v])
                 | None \<Rightarrow>
                     (case py_float (remove_plus valstr) of
                        Some v \<Rightarrow> extract_values col_index rest_lines (values @ [v])
                      | None \<Rightarrow> extract_values col_index rest_lines values))))"

definition no_data_msg :: "string \<Rightarrow> string" where
  "no_data_msg name = ''No data lines found in '' @ name"

definition no_numeric_msg :: "string \<Rightarrow> string" where
  "no_numeric_msg name = ''No numeric impedance values parsed in '' @ name"

definition not_enough_msg :: "string \<Rightarrow> nat \<Rightarrow> int \<Rightarrow> string" where
  "not_enough_msg name len num_freq =
     ''Not enough rows to reshape for '' @ name @ '' (len='' @ str_nat len @
     '', num_freq='' @ str_int num_freq @ '')''"

text \<open>Lines 111 to 121: the reshape and the average, on a non-empty list of values.\<close>

definition reshape_average ::
  "string \<Rightarrow> int \<Rightarrow> int option \<Rightarrow> pyfloat \<Rightarrow> pyfloat list \<Rightarrow> error + pyfloat list" where
  "reshape_average name num_freq trim_first_n scale values =
     (if num_freq = 0 then Inl (Error ZeroDivisionError ''integer division or modulo by zero'')
      else
        (let ncols = int (length values) div num_freq;
             trimmed = (case trim_first_n of
                          None \<Rightarrow> values
                        | Some t \<Rightarrow> if ncols = 0 then py_slice_to values t else values);
             ncols' = (case trim_first_n of
                         None \<Rightarrow> ncols
                       | Some t \<Rightarrow> if ncols = 0 then int (length trimmed) div num_freq else ncols)
         in if ncols = 0 \<and> ncols' = 0
            then Inl (Error ValueError (not_enough_msg name (length trimmed) num_freq))
            else (case np_reshape ncols' num_freq (py_slice_to trimmed (ncols' * num_freq)) of
                    Inl e \<Rightarrow> Inl e
                  | Inr mat \<Rightarrow> Inr (map (\<lambda>row. fmul (np_mean row) scale) (transpose mat)))))"

definition read_lcr_csv_lcr6300 ::
  "file_system \<Rightarrow> string \<Rightarrow> int \<Rightarrow> int option \<Rightarrow> string \<Rightarrow> int \<Rightarrow> pyfloat
     \<Rightarrow> error + pyfloat list" where
  "read_lcr_csv_lcr6300 fs path num_freq trim_first_n col_name fallback_col_index scale =
     (case fs path of
        None \<Rightarrow> Inl (Error FileNotFoundError path)
      | Some lines \<Rightarrow>
          (let header_idx = find_header col_name (take 40 lines) 0;
               data_lines = collect_data_lines header_idx lines
           in if data_lines = [] then Inl (Error ValueError (no_data_msg path))
              else
                (case extract_values
                        (column_index header_idx lines col_name fallback_col_index)
                        data_lines [] of
                   Inl e \<Rightarrow> Inl e
                 | Inr values \<Rightarrow>
                     if values = [] then Inl (Error ValueError (no_numeric_msg path))
                     else reshape_average path num_freq trim_first_n scale values)))"

text \<open>The value sequence of a file's lines: what lines 59 to 105 compute when they do not raise.\<close>

definition parsed_values :: "string list \<Rightarrow> string \<Rightarrow> int \<Rightarrow> error + pyfloat list" where
  "parsed_values lines col_name fallback_col_index =
     extract_values
       (column_index (find_header col_name (take 40 lines) 0) lines col_name fallback_col_index)
       (collect_data_lines (find_header col_name (take 40 lines) 0) lines) []"

subsection \<open>The loading loop\<close>

definition TO_LOAD :: "string list" where
  "TO_LOAD = [''LIST0423.CSV'', ''LIST0424.CSV'', ''LIST0009.CSV'', ''LIST0022.CSV'',
              ''LIST0032.CSV'', ''LIST0042.CSV'', ''LIST0052.CSV'', ''LIST0096.CSV'']"

text \<open>\<^verbatim>\<open>np.arange(10, 101, 10)\<close>.\<close>

definition freq :: "int list" where
  "freq = map (\<lambda>i. 10 + 10 * int i) [0..<10]"

text \<open>A dict keeps its keys in the order of their first insertion.\<close>

fun dict_set :: "('k \<times> 'v) list \<Rightarrow> 'k \<Rightarrow> 'v \<Rightarrow> ('k \<times> 'v) list" where
  "dict_set [] k v = [(k, v)]"
| "dict_set ((k', v') # d) k v = (if k' = k then (k, v) # d else (k', v') # dict_set d k v)"

text \<open>What the loop prints, one entry for each \<^verbatim>\<open>print\<close>.\<close>

datatype printed =
    NotFoundSkipped string
  | Loaded string
  | ErrorReading string error
  | NoRealFiles

text \<open>Line 131: the call of the reader, with the arguments the loop gives it.\<close>

definition read_configured :: "file_system \<Rightarrow> string \<Rightarrow> error + pyfloat list" where
  "read_configured fs fn =
     read_lcr_csv_lcr6300 fs fn 10 (Some 100) ''Z(OHM)'' 2 (Finite (1 / 1000))"

text \<open>Lines 125 to 135: the loop over the file names, with the dict and the output so far.\<close>

fun load_loop ::
  "file_system \<Rightarrow> string list \<Rightarrow> (string \<times> pyfloat list) list \<Rightarrow> printed list
     \<Rightarrow> (string \<times> pyfloat list) list \<times> printed list" where
  "load_loop fs [] loaded out = (loaded, out)"
| "load_loop fs (fn # fns) loaded out =
     (case fs fn of
        None \<Rightarrow> load_loop fs fns loaded (out @ [NotFoundSkipped fn])
      | Some lines \<Rightarrow>
          (case read_configured fs fn of
             Inr avg \<Rightarrow> load_loop fs fns (dict_set loaded fn avg) (out @ [Loaded fn])
           | Inl e \<Rightarrow> load_loop fs fns loaded (out @ [ErrorReading fn e])))"

text \<open>Lines 139 to 144: the synthetic curves.\<close>

definition base :: "pyfloat list" where
  "base = map (\<lambda>f. fadd (Finite 20) (fmul (Finite (3 / 10)) (Finite (real_of_int f)))) freq"

definition demo :: "(string \<times> pyfloat list) list" where
  "demo = [(''demo_baseline'', base),
           (''demo_postwash'', map (\<lambda>b. fmul b (Finite (125 / 100))) base),
           (''demo_hydrogel'', map (\<lambda>b. fmul b (Finite (9 / 10))) base)]"

text \<open>Lines 124 to 144: the dict \<^verbatim>\<open>loaded\<close> after the loop and the fallback, and the output.\<close>

definition loaded :: "file_system \<Rightarrow> (string \<times> pyfloat list) list \<times> printed list" where
  "loaded fs =
     (case load_loop fs TO_LOAD [] [] of
        (d, out) \<Rightarrow> if d = [] then (demo, out @ [NoRealFiles]) else (d, out))"

subsection \<open>The specification's wording\<close>

text \<open>The column label occurs in a line as a literal substring.\<close>

definition contains_literal :: "string \<Rightarrow> string \<Rightarrow> bool" where
  "contains_literal line label = (\<exists>before after. line = before @ label @ after)"

text \<open>The first character of a line that is not white space, if there is one.\<close>

definition first_nonspace :: "string \<Rightarrow> char option" where
  "first_nonspace line = find (\<lambda>c. \<not> py_isspace c) line"

text \<open>
  The candidate data lines as the specification describes them: after a header, the
  lines whose first non-blank character is a plus, a digit or a minus; without a header,
  the lines of the whole file whose first non-blank character is a plus.
\<close>

definition spec_data_lines :: "nat option \<Rightarrow> string list \<Rightarrow> string list" where
  "spec_data_lines header lines =
     (case header of
        Some h \<Rightarrow>
          filter (\<lambda>line. case first_nonspace line of
                            None \<Rightarrow> False
                          | Some c \<Rightarrow> c = CHR ''+'' \<or> py_isdigit c \<or> c = CHR ''-'')
                 (drop (Suc h) lines)
      | None \<Rightarrow> filter (\<lambda>line. first_nonspace line = Some CHR ''+'') lines)"

text \<open>
  What one candidate line contributes, for a column index that is not negative: nothing
  when it has too few fields, else the float of the field, read as it is or, failing
  that, with every plus removed.
\<close>

definition spec_line_value :: "nat \<Rightarrow> string \<Rightarrow> pyfloat option" where
  "spec_line_value col line =
     (if length (fields line) < col + 1 then None
      else (case py_float (fields line ! col) of
              Some v \<Rightarrow> Some v
            | None \<Rightarrow> py_float (remove_plus (fields line ! col))))"

text \<open>
  The fields of a header line as the specification describes them. The line is split on
  its commas: the pieces hold no comma and, joined by commas, give the line back. A text
  is stripped of a class of characters when what was taken from its two ends is all of
  that class, and what is left neither starts nor ends with a character of the class.
  A field is a piece stripped of white space, then of double quotes.
\<close>

fun join_comma :: "string list \<Rightarrow> string" where
  "join_comma [] = []"
| "join_comma [p] = p"
| "join_comma (p # q # ps) = p @ CHR '','' # join_comma (q # ps)"

definition comma_pieces :: "string \<Rightarrow> string list \<Rightarrow> bool" where
  "comma_pieces line pieces \<longleftrightarrow>
     pieces \<noteq> [] \<and> join_comma pieces = line \<and> list_all (\<lambda>p. CHR '','' \<notin> set p) pieces"

definition stripped_of :: "(char \<Rightarrow> bool) \<Rightarrow> string \<Rightarrow> string \<Rightarrow> bool" where
  "stripped_of p s t \<longleftrightarrow>
     (\<exists>a b. s = a @ t @ b \<and> list_all p a \<and> list_all p b \<and>
            (t = [] \<or> \<not> p (hd t) \<and> \<not> p (last t)))"

definition spec_fields :: "string \<Rightarrow> string list \<Rightarrow> bool" where
  "spec_fields line flds \<longleftrightarrow>
     (\<exists>pieces. comma_pieces line pieces \<and>
        list_all2 (\<lambda>piece fld. \<exists>mid. stripped_of py_isspace piece mid \<and>
                                  stripped_of (\<lambda>c. c = CHR 0x22) mid fld)
          pieces flds)"

subsection \<open>Example files\<close>

text \<open>A file with a preamble, a header naming the column, and four readings among other lines.\<close>

definition sweep_file :: "string list" where
  \<open>sweep_file =
     [''LCR-6300'', ''FREQ,Z(OHM),X'', ''+1.0E+01,+2.0E+03,+1'', [], ''note'',
      ''+2.0E+01,+4.0E+03,+2'', ''1.0E+01,6000,+3'', ''-'', ''+2.0E+01, "8e3" '']\<close>

text \<open>A file with no header: only the lines that start with a plus are read.\<close>

definition bare_file :: "string list" where
  "bare_file = [''+1,+2,+30'', ''4,5,60'', '' +7,+8,++90'', ''-1,-2,-3'', ''+1,+2'', ''+1,+2,x'']"

text \<open>A file with a header and candidate lines, none of which holds a number.\<close>

definition words_file :: "string list" where
  "words_file = [''Z(OHM)'', ''+a,b'', ''-x'']"

text \<open>A header whose labels are quoted and padded, and one that holds the label only inside a longer field.\<close>

definition quoted_file :: "string list" where
  \<open>quoted_file = [''# sweep'', '' "FREQ" , "Z(OHM)" ,X'', ''+1,+2,+3'']\<close>

definition inexact_file :: "string list" where
  "inexact_file = [''FREQ,Z(OHM)/k,X'', ''+1,+2,+3'']"

definition example_fs :: file_system where
  "example_fs = (\<lambda>name. None)(''sweep.csv'' \<mapsto> sweep_file, ''bare.csv'' \<mapsto> bare_file,
                                 ''empty.csv'' \<mapsto> [], ''words.csv'' \<mapsto> words_file,
                                 ''LIST0009.CSV'' \<mapsto> bare_file)"

section \<open>Properties\<close>

subsection \<open>Evaluation on concrete input\<close>

lemmas string_defs =
  py_isspace_def is_dec_def py_isdigit_def strip_where_def py_strip_def strip_quotes_def
  remove_plus_def fields_def

lemmas float_defs =
  float_isspace_def py_float_def float_literal_def decimal_def exponent_def scale10_def nat_of_digits_def
  digit_val_def lower_letter_def

subsection \<open>Reshaping and averaging\<close>

lemma length_chunks: "length (chunks r c xs) = r"
  by (induction r arbitrary: xs) simp_all

lemma chunks_row_length: "r * c \<le> length xs \<Longrightarrow> i < r \<Longrightarrow> length (chunks r c xs ! i) = c"
proof (induction r arbitrary: xs i)
  case 0
  then show ?case by simp
next
  case (Suc r)
  show ?case
  proof (cases i)
    case 0
    with Suc.prems show ?thesis by simp
  next
    case (Suc k)
    with Suc.prems Suc.IH [of "drop c xs" k] show ?thesis by simp
  qed
qed

lemma chunks_nth:
  "r * c \<le> length xs \<Longrightarrow> i < r \<Longrightarrow> j < c \<Longrightarrow> chunks r c xs ! i ! j = xs ! (i * c + j)"
proof (induction r arbitrary: xs i)
  case 0
  then show ?case by simp
next
  case (Suc r)
  show ?case
  proof (cases i)
    case 0
    with Suc.prems show ?thesis by simp
  next
    case (Suc k)
    with Suc.prems Suc.IH [of "drop c xs" k] show ?thesis by (simp add: add.commute add.left_commute)
  qed
qed

lemma transpose_chunks:
  assumes "0 < r" "r * c \<le> length xs"
  shows "transpose (chunks r c xs) = map (\<lambda>j. map (\<lambda>i. xs ! (i * c + j)) [0..<r]) [0..<c]"
proof -
  have "transpose (chunks r c xs)
          = map (\<lambda>j. map (\<lambda>i. chunks r c xs ! i ! j) [0..<length (chunks r c xs)]) [0..<c]"
    using assms length_chunks [of r c xs] by (intro transpose_rectangle) (auto simp: chunks_row_length)
  also have "\<dots> = map (\<lambda>j. map (\<lambda>i. xs ! (i * c + j)) [0..<r]) [0..<c]"
    using assms by (simp add: length_chunks chunks_nth)
  finally show ?thesis .
qed

lemma length_py_slice_to: "length (py_slice_to xs n) \<le> length xs"
  by (auto simp: py_slice_to_def)

lemma reshape_average_short:
  assumes "0 < nf" "int (length values) < nf"
  shows "reshape_average name nf trim scale values =
           Inl (Error ValueError (not_enough_msg name
                  (length (case trim of None \<Rightarrow> values | Some t \<Rightarrow> py_slice_to values t)) nf))"
proof -
  have z: "int (length values) div nf = 0" using assms by simp
  have "int (length (py_slice_to values t)) div nf = 0" for t
    using assms length_py_slice_to [of "values" t] by simp
  with z assms show ?thesis
    by (simp add: reshape_average_def Let_def split: option.split)
qed

lemma reshape_average_full:
  assumes "0 < nf" "nf \<le> int (length values)"
  shows "reshape_average name nf trim scale values =
           Inr (map (\<lambda>j. fmul (np_mean (map (\<lambda>i. values ! (i * nat nf + j))
                                             [0..<length values div nat nf])) scale)
                    [0..<nat nf])"
proof -
  define k where "k = length values div nat nf"
  have kpos: "0 < k" using assms by (simp add: k_def div_greater_zero_iff nat_le_iff)
  have kint: "int (length values) div nf = int k"
    using assms by (simp add: k_def zdiv_int)
  have le: "k * nat nf \<le> length values" by (simp add: k_def)
  have prod: "int k * nf = int (k * nat nf)" using assms by simp
  have "nat (int k * nf) = k * nat nf" "0 \<le> int k * nf"
    using assms by (simp_all add: nat_mult_distrib)
  then have sl: "py_slice_to values (int k * nf) = take (k * nat nf) values"
    by (simp add: py_slice_to_def)
  have rs: "np_reshape (int k) nf (take (k * nat nf) values)
              = Inr (chunks k (nat nf) (take (k * nat nf) values))"
    using assms le prod by (simp add: np_reshape_def min_absorb2)
  have tr: "transpose (chunks k (nat nf) (take (k * nat nf) values))
              = map (\<lambda>j. map (\<lambda>i. values ! (i * nat nf + j)) [0..<k]) [0..<nat nf]"
  proof -
    have "transpose (chunks k (nat nf) (take (k * nat nf) values))
            = map (\<lambda>j. map (\<lambda>i. take (k * nat nf) values ! (i * nat nf + j)) [0..<k]) [0..<nat nf]"
      using kpos le by (intro transpose_chunks) simp_all
    also have "\<dots> = map (\<lambda>j. map (\<lambda>i. values ! (i * nat nf + j)) [0..<k]) [0..<nat nf]"
    proof (intro map_cong refl)
      fix j i assume "j \<in> set [0..<nat nf]" "i \<in> set [0..<k]"
      then have "j < nat nf" "i < k" by simp_all
      then have "i * nat nf + j < Suc i * nat nf" by simp
      also have "\<dots> \<le> k * nat nf" using \<open>i < k\<close> by (intro mult_le_mono1) simp
      finally show "take (k * nat nf) values ! (i * nat nf + j) = values ! (i * nat nf + j)"
        by simp
    qed
    finally show ?thesis .
  qed
  have "reshape_average name nf trim scale values =
          Inr (map (\<lambda>row. fmul (np_mean row) scale) (transpose (chunks k (nat nf) (take (k * nat nf) values))))"
    using assms kpos by (simp add: reshape_average_def Let_def kint sl rs split: option.split)
  also have "\<dots> = Inr (map (\<lambda>j. fmul (np_mean (map (\<lambda>i. values ! (i * nat nf + j)) [0..<k])) scale)
                            [0..<nat nf])"
    by (simp add: tr comp_def)
  finally show ?thesis by (simp add: k_def)
qed

lemma reshape_average_negative:
  assumes "nf < 0" "values \<noteq> []"
  shows "reshape_average name nf trim scale values =
           Inl (Error ValueError ''can only specify one unknown dimension'')"
proof -
  have "0 < int (length values)" using assms by simp
  then have neg: "int (length values) div nf < 0"
    using assms(1) by (simp add: neg_imp_zdiv_neg_iff)
  then show ?thesis
    using assms by (simp add: reshape_average_def np_reshape_def Let_def split: option.split)
qed

lemma foldl_fadd_Finite: "foldl fadd (Finite a) (map Finite xs) = Finite (a + sum_list xs)"
  by (induction xs arbitrary: a) (simp_all add: add.assoc)

lemma np_mean_Finite:
  "xs \<noteq> [] \<Longrightarrow> np_mean (map Finite xs) = Finite (sum_list xs / real (length xs))"
  by (simp add: np_mean_def fsum_def foldl_fadd_Finite)

subsection \<open>The reader, case by case\<close>

lemma read_missing:
  "fs path = None \<Longrightarrow>
   read_lcr_csv_lcr6300 fs path nf trim col fb scale = Inl (Error FileNotFoundError path)"
  by (simp add: read_lcr_csv_lcr6300_def)

lemma read_unfold:
  "fs path = Some lines \<Longrightarrow>
   read_lcr_csv_lcr6300 fs path nf trim col fb scale =
     (if collect_data_lines (find_header col (take 40 lines) 0) lines = []
      then Inl (Error ValueError (no_data_msg path))
      else (case parsed_values lines col fb of
              Inl e \<Rightarrow> Inl e
            | Inr vals \<Rightarrow>
                if vals = [] then Inl (Error ValueError (no_numeric_msg path))
                else reshape_average path nf trim scale vals))"
  by (simp add: read_lcr_csv_lcr6300_def parsed_values_def Let_def)

lemma parsed_values_no_lines:
  "collect_data_lines (find_header col (take 40 lines) 0) lines = [] \<Longrightarrow>
   parsed_values lines col fb = Inr []"
  by (simp add: parsed_values_def)

lemma extract_values_error:
  "extract_values ci ls acc = Inl e \<Longrightarrow> e = Error IndexError ''list index out of range''"
  by (induction ls arbitrary: acc)
     (auto simp: py_nth_def split: if_splits sum.splits option.splits)

lemma reshape_average_zero:
  "reshape_average name 0 trim scale vals =
     Inl (Error ZeroDivisionError ''integer division or modulo by zero'')"
  by (simp add: reshape_average_def)

lemma reshape_average_cases:
  assumes "vals \<noteq> []"
  obtains (zero) "nf = 0"
      "reshape_average name nf trim scale vals =
         Inl (Error ZeroDivisionError ''integer division or modulo by zero'')"
    | (negative) "nf < 0"
      "reshape_average name nf trim scale vals =
         Inl (Error ValueError ''can only specify one unknown dimension'')"
    | (short) "0 < nf" "int (length vals) < nf"
      "reshape_average name nf trim scale vals =
         Inl (Error ValueError (not_enough_msg name
                (length (case trim of None \<Rightarrow> vals | Some t \<Rightarrow> py_slice_to vals t)) nf))"
    | (full) "0 < nf" "nf \<le> int (length vals)"
      "reshape_average name nf trim scale vals =
         Inr (map (\<lambda>j. fmul (np_mean (map (\<lambda>i. vals ! (i * nat nf + j))
                                           [0..<length vals div nat nf])) scale)
                  [0..<nat nf])"
proof -
  consider "nf = 0" | "nf < 0" | "0 < nf" "int (length vals) < nf" | "0 < nf" "nf \<le> int (length vals)"
    by linarith
  then show thesis
  proof cases
    case 1 with zero reshape_average_zero show ?thesis by simp
  next
    case 2 with negative reshape_average_negative assms show ?thesis by simp
  next
    case 3 with short reshape_average_short show ?thesis by simp
  next
    case 4 with full reshape_average_full show ?thesis by simp
  qed
qed

lemma msgs_distinct:
  "no_data_msg p \<noteq> no_numeric_msg q"
  "no_data_msg p \<noteq> not_enough_msg q n f"
  "no_numeric_msg p \<noteq> not_enough_msg q n f"
  "''can only specify one unknown dimension'' \<noteq> no_data_msg p"
  "''can only specify one unknown dimension'' \<noteq> no_numeric_msg p"
  "''can only specify one unknown dimension'' \<noteq> not_enough_msg p n f"
  by (simp_all add: no_data_msg_def no_numeric_msg_def not_enough_msg_def)

lemma msgs_name_file:
  "contains_literal (no_data_msg p) p"
  "contains_literal (no_numeric_msg p) p"
  "contains_literal (not_enough_msg p n f) p"
  unfolding contains_literal_def no_data_msg_def no_numeric_msg_def not_enough_msg_def
  by (metis append_Nil2, metis append_Nil2, metis)

text \<open>Every way the reader can end on a file that exists.\<close>

lemma read_cases:
  assumes "fs path = Some lines"
  obtains
    (no_data) "collect_data_lines (find_header col (take 40 lines) 0) lines = []"
      "read_lcr_csv_lcr6300 fs path nf trim col fb scale = Inl (Error ValueError (no_data_msg path))"
  | (index_error) "collect_data_lines (find_header col (take 40 lines) 0) lines \<noteq> []"
      "parsed_values lines col fb = Inl (Error IndexError ''list index out of range'')"
      "read_lcr_csv_lcr6300 fs path nf trim col fb scale
         = Inl (Error IndexError ''list index out of range'')"
  | (no_numeric) "collect_data_lines (find_header col (take 40 lines) 0) lines \<noteq> []"
      "parsed_values lines col fb = Inr []"
      "read_lcr_csv_lcr6300 fs path nf trim col fb scale
         = Inl (Error ValueError (no_numeric_msg path))"
  | (zero) vals where "parsed_values lines col fb = Inr vals" "vals \<noteq> []" "nf = 0"
      "read_lcr_csv_lcr6300 fs path nf trim col fb scale
         = Inl (Error ZeroDivisionError ''integer division or modulo by zero'')"
  | (negative) vals where "parsed_values lines col fb = Inr vals" "vals \<noteq> []" "nf < 0"
      "read_lcr_csv_lcr6300 fs path nf trim col fb scale
         = Inl (Error ValueError ''can only specify one unknown dimension'')"
  | (short) vals where "parsed_values lines col fb = Inr vals" "vals \<noteq> []"
      "0 < nf" "int (length vals) < nf"
      "read_lcr_csv_lcr6300 fs path nf trim col fb scale
         = Inl (Error ValueError (not_enough_msg path
                  (length (case trim of None \<Rightarrow> vals | Some t \<Rightarrow> py_slice_to vals t)) nf))"
  | (full) vals where "parsed_values lines col fb = Inr vals" "vals \<noteq> []"
      "0 < nf" "nf \<le> int (length vals)"
      "read_lcr_csv_lcr6300 fs path nf trim col fb scale
         = Inr (map (\<lambda>j. fmul (np_mean (map (\<lambda>i. vals ! (i * nat nf + j))
                                           [0..<length vals div nat nf])) scale)
                  [0..<nat nf])"
proof -
  note u = read_unfold [of fs path lines nf trim col fb scale, OF assms]
  show thesis
  proof (cases "collect_data_lines (find_header col (take 40 lines) 0) lines = []")
    case True
    with u no_data show ?thesis by simp
  next
    case lines_ne: False
    show ?thesis
    proof (cases "parsed_values lines col fb")
      case (Inl e)
      then have "e = Error IndexError ''list index out of range''"
        unfolding parsed_values_def by (rule extract_values_error)
      with Inl u lines_ne index_error show ?thesis by simp
    next
      case (Inr vals)
      show ?thesis
      proof (cases "vals = []")
        case True
        with Inr u lines_ne no_numeric show ?thesis by simp
      next
        case False
        then show ?thesis
        proof (cases rule: reshape_average_cases [where nf = nf and name = path
                 and trim = trim and scale = scale])
          case zero with Inr False u lines_ne show ?thesis by (intro that(4) [of vals]) simp_all
        next
          case negative with Inr False u lines_ne show ?thesis by (intro that(5) [of vals]) simp_all
        next
          case short with Inr False u lines_ne show ?thesis by (intro that(6) [of vals]) simp_all
        next
          case full with Inr False u lines_ne show ?thesis by (intro that(7) [of vals]) simp_all
        qed
      qed
    qed
  qed
qed

lemma div_zero_short:
  assumes "vals \<noteq> []" "nf \<noteq> 0" "int (length vals) div nf = 0"
  shows "0 < nf \<and> int (length vals) < nf"
proof -
  have "0 < int (length vals)" using assms(1) by simp
  with assms(2,3) show ?thesis by (auto simp: zdiv_eq_0_iff)
qed

subsection \<open>The example files, evaluated\<close>

lemma example_fs_lookup:
  "example_fs ''sweep.csv'' = Some sweep_file"
  "example_fs ''bare.csv'' = Some bare_file"
  "example_fs ''empty.csv'' = Some []"
  "example_fs ''words.csv'' = Some words_file"
  "example_fs ''LIST0009.CSV'' = Some bare_file"
  "example_fs ''absent.csv'' = None"
  by (simp_all add: example_fs_def)

lemma sweep_header: "find_header ''Z(OHM)'' (take 40 sweep_file) 0 = Some 1"
  by (simp add: sweep_file_def)

lemma sweep_data_lines:
  \<open>collect_data_lines (Some 1) sweep_file =
     [''+1.0E+01,+2.0E+03,+1'', ''+2.0E+01,+4.0E+03,+2'', ''1.0E+01,6000,+3'', ''-'',
      ''+2.0E+01, "8e3" '']\<close>
  by (simp add: sweep_file_def collect_data_lines_def string_defs)

lemma sweep_column: "column_index (Some 1) sweep_file ''Z(OHM)'' 2 = 1"
  by (simp add: sweep_file_def column_index_def string_defs)

lemma sweep_values:
  "parsed_values sweep_file ''Z(OHM)'' 2 = Inr [Finite 2000, Finite 4000, Finite 6000, Finite 8000]"
  unfolding parsed_values_def sweep_header sweep_data_lines sweep_column
  by (simp add: string_defs float_defs py_nth_def)

lemma bare_header: "find_header ''Z(OHM)'' (take 40 bare_file) 0 = None"
  by (simp add: bare_file_def)

lemma bare_data_lines:
  "collect_data_lines None bare_file = [''+1,+2,+30'', '' +7,+8,++90'', ''+1,+2'', ''+1,+2,x'']"
  by (simp add: bare_file_def collect_data_lines_def string_defs)

lemma bare_column: "column_index None bare_file ''Z(OHM)'' 2 = 2"
  by (simp add: column_index_def)

lemma bare_values: "parsed_values bare_file ''Z(OHM)'' 2 = Inr [Finite 30, Finite 90]"
  unfolding parsed_values_def bare_header bare_data_lines bare_column
  by (simp add: string_defs float_defs py_nth_def)

lemma sweep_average:
  "reshape_average ''sweep.csv'' 2 None (Finite (1 / 1000))
     [Finite 2000, Finite 4000, Finite 6000, Finite 8000] = Inr [Finite 4, Finite 6]"
  by (simp add: reshape_average_def np_reshape_def py_slice_to_def Let_def np_mean_def fsum_def
        eval_nat_numeral)

lemma sweep_read:
  "read_lcr_csv_lcr6300 example_fs ''sweep.csv'' 2 None ''Z(OHM)'' 2 (Finite (1 / 1000))
     = Inr [Finite 4, Finite 6]"
  by (simp add: read_unfold [where fs = example_fs and path = "''sweep.csv''", OF example_fs_lookup(1)]
        sweep_header sweep_data_lines sweep_values sweep_average del: One_nat_def)

lemma words_header: "find_header ''Z(OHM)'' (take 40 words_file) 0 = Some 0"
  by (simp add: words_file_def)

lemma words_data_lines: "collect_data_lines (Some 0) words_file = [''+a,b'', ''-x'']"
  by (simp add: words_file_def collect_data_lines_def string_defs)

lemma words_values: "parsed_values words_file ''Z(OHM)'' 2 = Inr []"
  unfolding parsed_values_def words_header words_data_lines
  by (simp add: words_file_def column_index_def string_defs float_defs py_nth_def)

lemma not_enough_2_10:
  "not_enough_msg ''bare.csv'' 2 10 = ''Not enough rows to reshape for bare.csv (len=2, num_freq=10)''"
  "not_enough_msg ''bare.csv'' (Suc (Suc 0)) 10
     = ''Not enough rows to reshape for bare.csv (len=2, num_freq=10)''"
  by (simp_all add: not_enough_msg_def str_int_def str_nat.simps digit_char_def)

subsection \<open>Strings: stripping, prefixes and substrings\<close>

lemma strip_where_head:
  "strip_where p s =
     (case dropWhile p s of [] \<Rightarrow> [] | c # t \<Rightarrow> c # rev (dropWhile p (rev t)))"
proof (cases "dropWhile p s")
  case Nil
  show ?thesis unfolding strip_where_def Nil by simp
next
  case (Cons c t)
  then have "\<not> p c" using hd_dropWhile [of p s] by auto
  then have "dropWhile p (rev t @ [c]) = dropWhile p (rev t) @ [c]"
    by (simp add: dropWhile_append3)
  with Cons show ?thesis by (simp add: strip_where_def)
qed

lemma first_nonspace_dropWhile:
  "first_nonspace line = (case dropWhile py_isspace line of [] \<Rightarrow> None | c # t \<Rightarrow> Some c)"
  unfolding first_nonspace_def by (induction line) simp_all

lemma py_strip_first:
  "(py_strip line = [] \<longleftrightarrow> first_nonspace line = None) \<and>
   (\<forall>c t. py_strip line = c # t \<longrightarrow> first_nonspace line = Some c)"
proof (cases "dropWhile py_isspace line")
  case Nil
  show ?thesis unfolding py_strip_def strip_where_head first_nonspace_dropWhile Nil by simp
next
  case (Cons c t)
  show ?thesis unfolding py_strip_def strip_where_head first_nonspace_dropWhile Cons by simp
qed

lemma py_startswith_iff: "py_startswith s p \<longleftrightarrow> (\<exists>after. s = p @ after)"
  by (induction s p rule: py_startswith.induct) auto

lemma py_in_iff: "py_in p s \<longleftrightarrow> contains_literal s p"
proof (induction s)
  case Nil
  then show ?case by (simp add: contains_literal_def)
next
  case (Cons c cs)
  have "contains_literal (c # cs) p \<longleftrightarrow> (\<exists>after. c # cs = p @ after) \<or> contains_literal cs p"
  proof
    assume "contains_literal (c # cs) p"
    then obtain before after where e: "c # cs = before @ p @ after"
      unfolding contains_literal_def by blast
    show "(\<exists>after. c # cs = p @ after) \<or> contains_literal cs p"
    proof (cases before)
      case Nil
      with e show ?thesis by auto
    next
      case (Cons b bs)
      with e have "cs = bs @ p @ after" by simp
      then show ?thesis unfolding contains_literal_def by blast
    qed
  next
    assume "(\<exists>after. c # cs = p @ after) \<or> contains_literal cs p"
    then show "contains_literal (c # cs) p"
    proof
      assume "\<exists>after. c # cs = p @ after"
      then obtain after where "c # cs = [] @ p @ after" by auto
      then show ?thesis unfolding contains_literal_def by blast
    next
      assume "contains_literal cs p"
      then obtain before after where "cs = before @ p @ after"
        unfolding contains_literal_def by blast
      then have "c # cs = (c # before) @ p @ after" by simp
      then show ?thesis unfolding contains_literal_def by blast
    qed
  qed
  with Cons show ?case by (simp add: py_startswith_iff)
qed

lemma py_index_first:
  "x \<in> set xs \<Longrightarrow>
   py_index xs x < length xs \<and> xs ! py_index xs x = x \<and> (\<forall>q<py_index xs x. xs ! q \<noteq> x)"
proof (induction xs)
  case Nil
  then show ?case by simp
next
  case (Cons y ys)
  show ?case
  proof (cases "y = x")
    case True
    then show ?thesis by simp
  next
    case False
    with Cons have ih: "py_index ys x < length ys \<and> ys ! py_index ys x = x \<and>
        (\<forall>q<py_index ys x. ys ! q \<noteq> x)" by simp
    have "(y # ys) ! q \<noteq> x" if "q < Suc (py_index ys x)" for q
      using that ih False by (cases q) simp_all
    with ih False show ?thesis by simp
  qed
qed

subsection \<open>The header and the candidate lines\<close>

lemma find_header_Some:
  "find_header col ls i = Some h \<longleftrightarrow>
     (\<exists>k. h = i + k \<and> k < length ls \<and> py_in col (ls ! k) \<and> (\<forall>j<k. \<not> py_in col (ls ! j)))"
proof (induction ls arbitrary: i)
  case Nil
  then show ?case by simp
next
  case (Cons l ls)
  show ?case
  proof (cases "py_in col l")
    case True
    have "k = 0" if "\<forall>j<k. \<not> py_in col ((l # ls) ! j)" for k
    proof (rule ccontr)
      assume "k \<noteq> 0"
      with that have "\<not> py_in col ((l # ls) ! 0)" by blast
      with True show False by simp
    qed
    with True show ?thesis by auto
  next
    case False
    have "(\<exists>k. h = i + k \<and> k < length (l # ls) \<and> py_in col ((l # ls) ! k) \<and>
               (\<forall>j<k. \<not> py_in col ((l # ls) ! j)))
          \<longleftrightarrow> (\<exists>k. h = Suc i + k \<and> k < length ls \<and> py_in col (ls ! k) \<and>
                    (\<forall>j<k. \<not> py_in col (ls ! j)))"
      (is "?before \<longleftrightarrow> ?after")
    proof
      assume ?before
      then obtain k where k: "h = i + k" "k < length (l # ls)" "py_in col ((l # ls) ! k)"
        "\<forall>j<k. \<not> py_in col ((l # ls) ! j)" by blast
      from k(3) False obtain k' where k': "k = Suc k'" by (cases k) auto
      have "\<not> py_in col (ls ! j)" if "j < k'" for j
        using k(4) [rule_format, of "Suc j"] that k' by simp
      with k k' show ?after by auto
    next
      assume ?after
      then obtain k where k: "h = Suc i + k" "k < length ls" "py_in col (ls ! k)"
        "\<forall>j<k. \<not> py_in col (ls ! j)" by blast
      have "\<not> py_in col ((l # ls) ! j)" if "j < Suc k" for j
        using that k(4) False by (cases j) auto
      with k show ?before by (intro exI [of _ "Suc k"]) auto
    qed
    with False Cons.IH [of "Suc i"] show ?thesis by simp
  qed
qed

lemma find_header_None: "find_header col ls i = None \<longleftrightarrow> (\<forall>l\<in>set ls. \<not> py_in col l)"
  by (induction ls arbitrary: i) auto

lemma header_scan_filter:
  "header_scan ls acc =
     acc @ filter (\<lambda>line. case first_nonspace line of
                             None \<Rightarrow> False
                           | Some c \<Rightarrow> c = CHR ''+'' \<or> py_isdigit c \<or> c = CHR ''-'') ls"
proof (induction ls arbitrary: acc)
  case Nil
  then show ?case by simp
next
  case (Cons l ls)
  show ?case
  proof (cases "py_strip l")
    case Nil
    with py_strip_first [of l] Cons show ?thesis by simp
  next
    case (Cons c t)
    with py_strip_first [of l] have "first_nonspace l = Some c" by blast
    with Cons Cons.IH show ?thesis by simp
  qed
qed

lemma fallback_scan_filter:
  "fallback_scan ls acc = acc @ filter (\<lambda>line. first_nonspace line = Some CHR ''+'') ls"
proof (induction ls arbitrary: acc)
  case Nil
  then show ?case by simp
next
  case (Cons l ls)
  have "py_startswith (py_strip l) ''+'' \<longleftrightarrow> first_nonspace l = Some CHR ''+''"
  proof (cases "py_strip l")
    case Nil
    with py_strip_first [of l] show ?thesis by simp
  next
    case (Cons c t)
    with py_strip_first [of l] have "first_nonspace l = Some c" by blast
    with Cons show ?thesis by auto
  qed
  with Cons show ?case by simp
qed

subsection \<open>Reading a float\<close>

text \<open>
  A separator U+001C to U+001F next to a number is removed by \<^verbatim>\<open>str.strip\<close> but makes
  \<^verbatim>\<open>float()\<close> fail; a no-break space is dropped by both.
\<close>

lemma float_keeps_separators:
  "py_float [CHR 0x1C, CHR ''5''] = None \<and> py_strip [CHR 0x1C, CHR ''5''] = ''5'' \<and>
   py_float [CHR ''5'', CHR 0x1F] = None \<and> py_float [CHR 0xA0, CHR ''5'', CHR 0x0A] = Some (Finite 5)"
  by (simp add: string_defs float_defs)

text \<open>
  C6. The token \<^verbatim>\<open>+3.15453E+04\<close> is accepted by \<^verbatim>\<open>float\<close> at the first attempt
  and denotes 31545.3, the number that the literal \<^verbatim>\<open>31545.3\<close> denotes.
\<close>

theorem float_scientific_plus:
  "py_float ''+3.15453E+04'' = Some (Finite 31545.3) \<and>
   py_float ''+3.15453E+04'' = py_float ''31545.3''"
  by (simp add: string_defs float_defs)

text \<open>In the target column of a candidate line the token gives that value, before any scaling.\<close>

theorem float_scientific_plus_witness:
  "extract_values 2 [''+1.00000E+01,+0.00000E+00,+3.15453E+04''] [] = Inr [Finite 31545.3]"
proof -
  have "fields ''+1.00000E+01,+0.00000E+00,+3.15453E+04''
          = [''+1.00000E+01'', ''+0.00000E+00'', ''+3.15453E+04'']"
    by (simp add: string_defs)
  then show ?thesis
    using float_scientific_plus by (simp add: py_nth_def)
qed

subsection \<open>The average over the repeats\<close>

text \<open>
  C1. When the data section of a file yields exactly \<open>k * num_freq\<close> values with \<open>k \<ge> 1\<close>
  (and \<open>num_freq\<close> positive, as the contract of the reader asks), the reader returns a
  vector of length \<open>num_freq\<close>; its entry \<open>j\<close> is the mean of the values at the flat
  indices \<open>i * num_freq + j\<close> for \<open>i < k\<close>, times \<open>scale\<close>. On finite values this is the
  arithmetic mean of real numbers.
\<close>

theorem mean_of_repeats:
  assumes opened: "fs path = Some lines"
    and vals: "parsed_values lines col_name fallback_col_index = Inr vals"
    and len: "length vals = k * nat num_freq"
    and k: "1 \<le> k"
    and nf: "0 < num_freq"
  shows "\<exists>vec. read_lcr_csv_lcr6300 fs path num_freq trim_first_n col_name fallback_col_index scale
                 = Inr vec \<and>
               int (length vec) = num_freq \<and>
               (\<forall>j<nat num_freq.
                  vec ! j = fmul (np_mean (map (\<lambda>i. vals ! (i * nat num_freq + j)) [0..<k])) scale) \<and>
               (\<forall>rs s. vals = map Finite rs \<and> scale = Finite s \<longrightarrow>
                  (\<forall>j<nat num_freq.
                     vec ! j = Finite ((\<Sum>i<k. rs ! (i * nat num_freq + j)) / real k * s)))"
proof -
  let ?n = "nat num_freq"
  let ?vec = "map (\<lambda>j. fmul (np_mean (map (\<lambda>i. vals ! (i * ?n + j)) [0..<k])) scale) [0..<?n]"
  have npos: "0 < ?n" using nf by simp
  have ne: "vals \<noteq> []" using len k npos by auto
  have ge: "num_freq \<le> int (length vals)"
  proof -
    have "1 * ?n \<le> k * ?n" using k by (intro mult_le_mono1)
    then show ?thesis using len nf by simp
  qed
  have kdiv: "length vals div ?n = k" using len npos by simp
  have lines_ne: "collect_data_lines (find_header col_name (take 40 lines) 0) lines \<noteq> []"
    using parsed_values_no_lines [of col_name lines fallback_col_index] vals ne by auto
  have r: "read_lcr_csv_lcr6300 fs path num_freq trim_first_n col_name fallback_col_index scale
             = Inr ?vec"
    using read_unfold [of fs path lines num_freq trim_first_n col_name fallback_col_index scale]
      opened lines_ne vals ne reshape_average_full [OF nf ge, of path trim_first_n scale] kdiv
    by simp
  have fin: "?vec ! j = Finite ((\<Sum>i<k. rs ! (i * ?n + j)) / real k * s)"
    if "vals = map Finite rs" "scale = Finite s" "j < ?n" for rs s j
  proof -
    have idx: "i * ?n + j < length rs" if "i < k" for i
    proof -
      have "i * ?n + j < Suc i * ?n" using \<open>j < ?n\<close> by simp
      also have "\<dots> \<le> k * ?n" using \<open>i < k\<close> by (intro mult_le_mono1) simp
      finally show ?thesis using len that(1) \<open>vals = map Finite rs\<close> by simp
    qed
    have m: "map (\<lambda>i. vals ! (i * ?n + j)) [0..<k] = map Finite (map (\<lambda>i. rs ! (i * ?n + j)) [0..<k])"
      using idx \<open>vals = map Finite rs\<close> by simp
    have s: "sum_list (map (\<lambda>i. rs ! (i * ?n + j)) [0..<k]) = (\<Sum>i<k. rs ! (i * ?n + j))"
      by (simp add: interv_sum_list_conv_sum_set_nat atLeast0LessThan)
    have "np_mean (map (\<lambda>i. vals ! (i * ?n + j)) [0..<k])
            = Finite ((\<Sum>i<k. rs ! (i * ?n + j)) / real k)"
      unfolding m using np_mean_Finite [of "map (\<lambda>i. rs ! (i * ?n + j)) [0..<k]"] k
      by (simp add: s)
    then show ?thesis
      using \<open>j < ?n\<close> \<open>scale = Finite s\<close> by simp
  qed
  show ?thesis
  proof (intro exI conjI)
    show "read_lcr_csv_lcr6300 fs path num_freq trim_first_n col_name fallback_col_index scale = Inr ?vec"
      by (rule r)
    show "int (length ?vec) = num_freq" using nf by simp
    show "\<forall>j<?n. ?vec ! j = fmul (np_mean (map (\<lambda>i. vals ! (i * ?n + j)) [0..<k])) scale"
      by simp
    show "\<forall>rs s. vals = map Finite rs \<and> scale = Finite s \<longrightarrow>
            (\<forall>j<?n. ?vec ! j = Finite ((\<Sum>i<k. rs ! (i * ?n + j)) / real k * s))"
      using fin by blast
  qed
qed

theorem mean_of_repeats_witness:
  "\<exists>vec. read_lcr_csv_lcr6300 example_fs ''sweep.csv'' 2 None ''Z(OHM)'' 2 (Finite (1 / 1000))
            = Inr vec \<and>
          int (length vec) = 2 \<and>
          vec ! 0 = Finite ((2000 + 6000) / 2 * (1 / 1000)) \<and>
          vec ! 1 = Finite ((4000 + 8000) / 2 * (1 / 1000))"
proof -
  have len: "length [Finite 2000, Finite 4000, Finite 6000, Finite 8000] = 2 * nat 2"
    by simp
  from mean_of_repeats [where fs = example_fs and path = "''sweep.csv''" and trim_first_n = None
         and scale = "Finite (1 / 1000)", OF example_fs_lookup(1) sweep_values len]
  obtain vec where
    r: "read_lcr_csv_lcr6300 example_fs ''sweep.csv'' 2 None ''Z(OHM)'' 2 (Finite (1 / 1000)) = Inr vec"
    and l: "int (length vec) = 2"
    and f: "\<forall>rs s. [Finite 2000, Finite 4000, Finite 6000, Finite 8000] = map Finite rs \<and>
                     Finite (1 / 1000) = Finite s \<longrightarrow>
              (\<forall>j<nat 2. vec ! j = Finite ((\<Sum>i<2. rs ! (i * nat 2 + j)) / real 2 * s))"
    by auto
  from f [rule_format, of "[2000, 4000, 6000, 8000]" "1 / 1000" 0]
  have v0: "vec ! 0 = Finite ((2000 + 6000) / 2 * (1 / 1000))"
    by (simp add: eval_nat_numeral)
  from f [rule_format, of "[2000, 4000, 6000, 8000]" "1 / 1000" 1]
  have v1: "vec ! 1 = Finite ((4000 + 8000) / 2 * (1 / 1000))"
    by (simp add: eval_nat_numeral)
  from r l v0 v1 show ?thesis by blast
qed

subsection \<open>The length of the result\<close>

text \<open>
  C2. Whenever the reader returns a vector, for any file and any parameters, the vector
  has exactly \<open>num_freq\<close> entries.
\<close>

theorem vector_length:
  assumes "read_lcr_csv_lcr6300 fs path num_freq trim_first_n col_name fallback_col_index scale = Inr vec"
  shows "int (length vec) = num_freq"
proof -
  from assms obtain lines where f: "fs path = Some lines"
    by (cases "fs path") (simp_all add: read_missing)
  from assms f read_unfold [of fs path lines num_freq trim_first_n col_name fallback_col_index scale] obtain vals where
    v: "vals \<noteq> []" "reshape_average path num_freq trim_first_n scale vals = Inr vec"
    by (auto split: if_splits sum.splits)
  from v(1) show ?thesis
    by (cases rule: reshape_average_cases [where nf = num_freq and name = path
          and trim = trim_first_n and scale = scale]) (use v(2) in auto)
qed

theorem vector_length_witness:
  "read_lcr_csv_lcr6300 example_fs ''sweep.csv'' 2 None ''Z(OHM)'' 2 (Finite (1 / 1000))
     = Inr [Finite 4, Finite 6] \<and>
   int (length [Finite 4, Finite 6]) = 2"
  using vector_length [OF sweep_read] sweep_read by simp

subsection \<open>The three data failures\<close>

text \<open>
  C7. On a file that exists, the reader raises the no-data error exactly when there is
  no candidate data line; the no-numeric error exactly when there are candidate lines and
  no value was parsed; and the reshape error exactly when values were parsed and they are
  fewer than \<open>num_freq\<close>, with or without \<open>trim_first_n\<close>. Each message names the file.
\<close>

theorem failure_taxonomy:
  assumes opened: "fs path = Some lines"
  shows
    "(read_lcr_csv_lcr6300 fs path num_freq trim_first_n col_name fallback_col_index scale
        = Inl (Error ValueError (no_data_msg path))
      \<longleftrightarrow> collect_data_lines (find_header col_name (take 40 lines) 0) lines = []) \<and>
     (read_lcr_csv_lcr6300 fs path num_freq trim_first_n col_name fallback_col_index scale
        = Inl (Error ValueError (no_numeric_msg path))
      \<longleftrightarrow> collect_data_lines (find_header col_name (take 40 lines) 0) lines \<noteq> [] \<and>
          parsed_values lines col_name fallback_col_index = Inr []) \<and>
     ((\<exists>n. read_lcr_csv_lcr6300 fs path num_freq trim_first_n col_name fallback_col_index scale
             = Inl (Error ValueError (not_enough_msg path n num_freq)))
      \<longleftrightarrow> (\<exists>vals. parsed_values lines col_name fallback_col_index = Inr vals \<and> vals \<noteq> [] \<and>
                  int (length vals) < num_freq)) \<and>
     contains_literal (no_data_msg path) path \<and>
     contains_literal (no_numeric_msg path) path \<and>
     (\<forall>n. contains_literal (not_enough_msg path n num_freq) path)"
proof -
  note nl = parsed_values_no_lines [of col_name lines fallback_col_index]
  have "(read_lcr_csv_lcr6300 fs path num_freq trim_first_n col_name fallback_col_index scale
           = Inl (Error ValueError (no_data_msg path))
         \<longleftrightarrow> collect_data_lines (find_header col_name (take 40 lines) 0) lines = []) \<and>
        (read_lcr_csv_lcr6300 fs path num_freq trim_first_n col_name fallback_col_index scale
           = Inl (Error ValueError (no_numeric_msg path))
         \<longleftrightarrow> collect_data_lines (find_header col_name (take 40 lines) 0) lines \<noteq> [] \<and>
             parsed_values lines col_name fallback_col_index = Inr []) \<and>
        ((\<exists>n. read_lcr_csv_lcr6300 fs path num_freq trim_first_n col_name fallback_col_index scale
                = Inl (Error ValueError (not_enough_msg path n num_freq)))
         \<longleftrightarrow> (\<exists>vals. parsed_values lines col_name fallback_col_index = Inr vals \<and> vals \<noteq> [] \<and>
                     int (length vals) < num_freq))"
    using opened
  proof (cases rule: read_cases [where nf = num_freq and trim = trim_first_n
            and col = col_name and fb = fallback_col_index and scale = scale])
    case no_data
    with nl show ?thesis by (simp add: msgs_distinct msgs_distinct [symmetric])
  next
    case index_error
    then show ?thesis by simp
  next
    case no_numeric
    then show ?thesis by (simp add: msgs_distinct msgs_distinct [symmetric])
  next
    case (zero vals)
    with nl show ?thesis by auto
  next
    case (negative vals)
    with nl show ?thesis by (auto simp: msgs_distinct msgs_distinct [symmetric])
  next
    case (short vals)
    with nl show ?thesis by (auto simp: msgs_distinct msgs_distinct [symmetric])
  next
    case (full vals)
    with nl show ?thesis by auto
  qed
  with msgs_name_file show ?thesis by blast
qed

theorem failure_taxonomy_witness:
  "read_lcr_csv_lcr6300 example_fs ''empty.csv'' 10 (Some 100) ''Z(OHM)'' 2 (Finite (1 / 1000))
     = Inl (Error ValueError ''No data lines found in empty.csv'') \<and>
   read_lcr_csv_lcr6300 example_fs ''words.csv'' 10 (Some 100) ''Z(OHM)'' 2 (Finite (1 / 1000))
     = Inl (Error ValueError ''No numeric impedance values parsed in words.csv'') \<and>
   (\<exists>n. read_lcr_csv_lcr6300 example_fs ''bare.csv'' 10 (Some 100) ''Z(OHM)'' 2 (Finite (1 / 1000))
          = Inl (Error ValueError (not_enough_msg ''bare.csv'' n 10)))"
proof -
  note e = failure_taxonomy [where fs = example_fs and path = "''empty.csv''" and num_freq = 10
      and trim_first_n = "Some 100" and col_name = "''Z(OHM)''" and fallback_col_index = 2
      and scale = "Finite (1 / 1000)", OF example_fs_lookup(3)]
  note w = failure_taxonomy [where fs = example_fs and path = "''words.csv''" and num_freq = 10
      and trim_first_n = "Some 100" and col_name = "''Z(OHM)''" and fallback_col_index = 2
      and scale = "Finite (1 / 1000)", OF example_fs_lookup(4)]
  note b = failure_taxonomy [where fs = example_fs and path = "''bare.csv''" and num_freq = 10
      and trim_first_n = "Some 100" and col_name = "''Z(OHM)''" and fallback_col_index = 2
      and scale = "Finite (1 / 1000)", OF example_fs_lookup(2)]
  from e have 1: "read_lcr_csv_lcr6300 example_fs ''empty.csv'' 10 (Some 100) ''Z(OHM)'' 2
      (Finite (1 / 1000)) = Inl (Error ValueError ''No data lines found in empty.csv'')"
    by (simp add: collect_data_lines_def no_data_msg_def)
  from w have 2: "read_lcr_csv_lcr6300 example_fs ''words.csv'' 10 (Some 100) ''Z(OHM)'' 2
      (Finite (1 / 1000)) = Inl (Error ValueError ''No numeric impedance values parsed in words.csv'')"
    by (simp add: words_header words_data_lines words_values no_numeric_msg_def)
  from b have 3: "\<exists>n. read_lcr_csv_lcr6300 example_fs ''bare.csv'' 10 (Some 100) ''Z(OHM)'' 2
      (Finite (1 / 1000)) = Inl (Error ValueError (not_enough_msg ''bare.csv'' n 10))"
    by (simp add: bare_values)
  from 1 2 3 show ?thesis by blast
qed

subsection \<open>The truncation that cannot help\<close>

text \<open>
  C9. When the first repeat count \<open>len(values) // num_freq\<close> is zero, the values are fewer
  than \<open>num_freq\<close>; a prefix is no longer than the list, so the count stays zero after the
  truncation, and the reader raises the reshape error whatever \<open>trim_first_n\<close> is,
  also when it is \<open>num_freq\<close> or more. (With \<open>num_freq = 0\<close> there is no repeat count:
  the division raises.)
\<close>

theorem trim_never_averts:
  assumes opened: "fs path = Some lines"
    and parsed: "parsed_values lines col_name fallback_col_index = Inr vals"
    and some: "vals \<noteq> []"
    and nonzero: "num_freq \<noteq> 0"
    and no_repeat: "int (length vals) div num_freq = 0"
  shows "int (length vals) < num_freq \<and>
         (\<forall>t. length (py_slice_to vals t) \<le> length vals \<and>
              int (length (py_slice_to vals t)) div num_freq = 0) \<and>
         (\<forall>trim_first_n.
            read_lcr_csv_lcr6300 fs path num_freq trim_first_n col_name fallback_col_index scale =
              Inl (Error ValueError (not_enough_msg path
                     (length (case trim_first_n of None \<Rightarrow> vals | Some t \<Rightarrow> py_slice_to vals t))
                     num_freq)))"
proof -
  from div_zero_short [OF some nonzero no_repeat]
  have pos: "0 < num_freq" and short: "int (length vals) < num_freq" by simp_all
  have sl: "length (py_slice_to vals t) \<le> length vals \<and>
            int (length (py_slice_to vals t)) div num_freq = 0" for t
    using length_py_slice_to [of vals t] short by simp
  have "read_lcr_csv_lcr6300 fs path num_freq trim col_name fallback_col_index scale =
          Inl (Error ValueError (not_enough_msg path
                 (length (case trim of None \<Rightarrow> vals | Some t \<Rightarrow> py_slice_to vals t)) num_freq))"
    for trim
    using opened
  proof (cases rule: read_cases [where nf = num_freq and trim = trim and col = col_name
            and fb = fallback_col_index and scale = scale])
    case (short vs)
    from short(1) parsed have "vs = vals" by simp
    with short(5) show ?thesis by blast
  qed (use parsed some pos short parsed_values_no_lines [of col_name lines fallback_col_index] in auto)
  with short sl show ?thesis by blast
qed

theorem trim_never_averts_witness:
  "read_lcr_csv_lcr6300 example_fs ''bare.csv'' 10 (Some 100) ''Z(OHM)'' 2 (Finite (1 / 1000)) =
     Inl (Error ValueError ''Not enough rows to reshape for bare.csv (len=2, num_freq=10)'') \<and>
   read_lcr_csv_lcr6300 example_fs ''bare.csv'' 10 None ''Z(OHM)'' 2 (Finite (1 / 1000)) =
     Inl (Error ValueError ''Not enough rows to reshape for bare.csv (len=2, num_freq=10)'')"
proof -
  have d: "int (length [Finite 30, Finite 90]) div 10 = 0" by simp
  have s: "py_slice_to [Finite 30, Finite 90] 100 = [Finite 30, Finite 90]"
    by (simp add: py_slice_to_def)
  note t = trim_never_averts [where fs = example_fs and path = "''bare.csv''" and num_freq = 10
      and scale = "Finite (1 / 1000)", OF example_fs_lookup(2) bare_values _ _ d,
      THEN conjunct2, THEN conjunct2, rule_format]
  from t [of "Some 100"] t [of None] show ?thesis
    by (simp add: s not_enough_2_10)
qed

subsection \<open>The types of the failures\<close>

text \<open>
  C10. A missing file raises \<^verbatim>\<open>FileNotFoundError\<close>. On a file that exists the three data
  failures (no candidate line, no numeric value, too few values to reshape) all raise
  \<^verbatim>\<open>ValueError\<close>, with three different messages, and nothing the reader raises there is
  a \<^verbatim>\<open>FileNotFoundError\<close>: the type tells the missing file apart, and only the message
  tells the data failures apart.
\<close>

theorem data_failures_share_type:
  "(fs path = None \<longrightarrow>
      (\<exists>e. read_lcr_csv_lcr6300 fs path num_freq trim_first_n col_name fallback_col_index scale
              = Inl e \<and> exc_type e = FileNotFoundError)) \<and>
   (\<forall>lines. fs path = Some lines \<longrightarrow>
      (collect_data_lines (find_header col_name (take 40 lines) 0) lines = [] \<longrightarrow>
         (\<exists>e. read_lcr_csv_lcr6300 fs path num_freq trim_first_n col_name fallback_col_index scale
                 = Inl e \<and> exc_type e = ValueError \<and> message e = no_data_msg path)) \<and>
      (collect_data_lines (find_header col_name (take 40 lines) 0) lines \<noteq> [] \<and>
       parsed_values lines col_name fallback_col_index = Inr [] \<longrightarrow>
         (\<exists>e. read_lcr_csv_lcr6300 fs path num_freq trim_first_n col_name fallback_col_index scale
                 = Inl e \<and> exc_type e = ValueError \<and> message e = no_numeric_msg path)) \<and>
      (\<forall>vals. parsed_values lines col_name fallback_col_index = Inr vals \<and> vals \<noteq> [] \<and>
              int (length vals) < num_freq \<longrightarrow>
         (\<exists>e n. read_lcr_csv_lcr6300 fs path num_freq trim_first_n col_name fallback_col_index scale
                   = Inl e \<and> exc_type e = ValueError \<and>
                 message e = not_enough_msg path n num_freq)) \<and>
      (\<forall>e. read_lcr_csv_lcr6300 fs path num_freq trim_first_n col_name fallback_col_index scale
              = Inl e \<longrightarrow> exc_type e \<noteq> FileNotFoundError)) \<and>
   no_data_msg path \<noteq> no_numeric_msg path \<and>
   (\<forall>n. no_data_msg path \<noteq> not_enough_msg path n num_freq) \<and>
   (\<forall>n. no_numeric_msg path \<noteq> not_enough_msg path n num_freq)"
proof -
  have existing:
    "(collect_data_lines (find_header col_name (take 40 lines) 0) lines = [] \<longrightarrow>
         (\<exists>e. read_lcr_csv_lcr6300 fs path num_freq trim_first_n col_name fallback_col_index scale
                 = Inl e \<and> exc_type e = ValueError \<and> message e = no_data_msg path)) \<and>
      (collect_data_lines (find_header col_name (take 40 lines) 0) lines \<noteq> [] \<and>
       parsed_values lines col_name fallback_col_index = Inr [] \<longrightarrow>
         (\<exists>e. read_lcr_csv_lcr6300 fs path num_freq trim_first_n col_name fallback_col_index scale
                 = Inl e \<and> exc_type e = ValueError \<and> message e = no_numeric_msg path)) \<and>
      (\<forall>vals. parsed_values lines col_name fallback_col_index = Inr vals \<and> vals \<noteq> [] \<and>
              int (length vals) < num_freq \<longrightarrow>
         (\<exists>e n. read_lcr_csv_lcr6300 fs path num_freq trim_first_n col_name fallback_col_index scale
                   = Inl e \<and> exc_type e = ValueError \<and>
                 message e = not_enough_msg path n num_freq)) \<and>
      (\<forall>e. read_lcr_csv_lcr6300 fs path num_freq trim_first_n col_name fallback_col_index scale
              = Inl e \<longrightarrow> exc_type e \<noteq> FileNotFoundError)"
    if opened: "fs path = Some lines" for lines
    using opened
  proof (cases rule: read_cases [where nf = num_freq and trim = trim_first_n
            and col = col_name and fb = fallback_col_index and scale = scale])
    case no_data
    then show ?thesis
      using parsed_values_no_lines [of col_name lines fallback_col_index] by auto
  next
    case index_error
    then show ?thesis by auto
  next
    case no_numeric
    then show ?thesis by auto
  next
    case (zero vals)
    then show ?thesis
      using parsed_values_no_lines [of col_name lines fallback_col_index] by auto
  next
    case (negative vals)
    then show ?thesis
      using parsed_values_no_lines [of col_name lines fallback_col_index] by auto
  next
    case (short vals)
    then show ?thesis
      using parsed_values_no_lines [of col_name lines fallback_col_index] by auto
  next
    case (full vals)
    then show ?thesis
      using parsed_values_no_lines [of col_name lines fallback_col_index] by auto
  qed
  have missing: "\<exists>e. read_lcr_csv_lcr6300 fs path num_freq trim_first_n col_name
                        fallback_col_index scale = Inl e \<and> exc_type e = FileNotFoundError"
    if "fs path = None"
    using that by (simp add: read_missing)
  from existing missing msgs_distinct(1-3) show ?thesis by blast
qed

theorem data_failures_share_type_witness:
  "(\<exists>e. read_lcr_csv_lcr6300 example_fs ''absent.csv'' 10 (Some 100) ''Z(OHM)'' 2 (Finite (1 / 1000))
          = Inl e \<and> exc_type e = FileNotFoundError) \<and>
   (\<exists>e. read_lcr_csv_lcr6300 example_fs ''empty.csv'' 10 (Some 100) ''Z(OHM)'' 2 (Finite (1 / 1000))
          = Inl e \<and> exc_type e = ValueError \<and> message e = ''No data lines found in empty.csv'') \<and>
   (\<exists>e. read_lcr_csv_lcr6300 example_fs ''words.csv'' 10 (Some 100) ''Z(OHM)'' 2 (Finite (1 / 1000))
          = Inl e \<and> exc_type e = ValueError \<and>
          message e = ''No numeric impedance values parsed in words.csv'') \<and>
   (\<exists>e n. read_lcr_csv_lcr6300 example_fs ''bare.csv'' 10 (Some 100) ''Z(OHM)'' 2 (Finite (1 / 1000))
            = Inl e \<and> exc_type e = ValueError \<and> message e = not_enough_msg ''bare.csv'' n 10)"
proof -
  note a = data_failures_share_type [where fs = example_fs and path = "''absent.csv''"
      and num_freq = 10 and trim_first_n = "Some 100" and col_name = "''Z(OHM)''"
      and fallback_col_index = 2 and scale = "Finite (1 / 1000)", THEN conjunct1, rule_format,
      OF example_fs_lookup(6)]
  note x = data_failures_share_type [where fs = example_fs and num_freq = 10
      and trim_first_n = "Some 100" and col_name = "''Z(OHM)''"
      and fallback_col_index = 2 and scale = "Finite (1 / 1000)", THEN conjunct2, THEN conjunct1,
      rule_format]
  from x [where path = "''empty.csv''", OF example_fs_lookup(3)]
  have e: "\<exists>e. read_lcr_csv_lcr6300 example_fs ''empty.csv'' 10 (Some 100) ''Z(OHM)'' 2
      (Finite (1 / 1000)) = Inl e \<and> exc_type e = ValueError \<and>
      message e = ''No data lines found in empty.csv''"
    by (simp add: collect_data_lines_def no_data_msg_def)
  from x [where path = "''words.csv''", OF example_fs_lookup(4)]
  have w: "\<exists>e. read_lcr_csv_lcr6300 example_fs ''words.csv'' 10 (Some 100) ''Z(OHM)'' 2
      (Finite (1 / 1000)) = Inl e \<and> exc_type e = ValueError \<and>
      message e = ''No numeric impedance values parsed in words.csv''"
    by (simp add: words_header words_data_lines words_values no_numeric_msg_def)
  from x [where path = "''bare.csv''", OF example_fs_lookup(2)]
  have b: "\<exists>e n. read_lcr_csv_lcr6300 example_fs ''bare.csv'' 10 (Some 100) ''Z(OHM)'' 2
      (Finite (1 / 1000)) = Inl e \<and> exc_type e = ValueError \<and>
      message e = not_enough_msg ''bare.csv'' n 10"
    by (simp add: bare_values)
  from a e w b show ?thesis by blast
qed

subsection \<open>The candidate data lines\<close>

text \<open>
  C3. When a header was located, the candidate data lines are the lines after it whose
  first character that is not white space is a plus, a digit or a minus (so blank lines
  are out), in file order to the end of the file. When no header was located, they are
  the lines of the whole file whose first character that is not white space is a plus:
  lines that begin with a digit or a minus are then not candidates.
\<close>

theorem data_lines_as_specified:
  "collect_data_lines (find_header col_name (take 40 lines) 0) lines
     = spec_data_lines (find_header col_name (take 40 lines) 0) lines"
  by (cases "find_header col_name (take 40 lines) 0")
     (simp_all add: collect_data_lines_def spec_data_lines_def header_scan_filter
        fallback_scan_filter)

theorem data_lines_as_specified_witness:
  \<open>spec_data_lines (find_header ''Z(OHM)'' (take 40 bare_file) 0) bare_file
     = [''+1,+2,+30'', '' +7,+8,++90'', ''+1,+2'', ''+1,+2,x''] \<and>
   spec_data_lines (find_header ''Z(OHM)'' (take 40 sweep_file) 0) sweep_file
     = [''+1.0E+01,+2.0E+03,+1'', ''+2.0E+01,+4.0E+03,+2'', ''1.0E+01,6000,+3'', ''-'',
        ''+2.0E+01, "8e3" '']\<close>
  using data_lines_as_specified [of "''Z(OHM)''" bare_file]
    data_lines_as_specified [of "''Z(OHM)''" sweep_file]
  by (simp add: bare_header bare_data_lines sweep_header sweep_data_lines del: One_nat_def)

subsection \<open>The header and the column\<close>

text \<open>Splitting on commas is the inverse of joining with commas.\<close>

lemma split_comma_not_Nil: "split_comma s \<noteq> []"
  by (induction s) (auto split: list.split)

lemma join_split_comma: "join_comma (split_comma s) = s"
proof (induction s)
  case Nil
  show ?case by simp
next
  case (Cons c cs)
  obtain p ps where sp: "split_comma cs = p # ps"
    using split_comma_not_Nil [of cs] by (cases "split_comma cs") auto
  with Cons show ?case by (cases ps) auto
qed

lemma split_comma_no_comma: "list_all (\<lambda>p. CHR '','' \<notin> set p) (split_comma s)"
  by (induction s) (auto split: list.split)

lemma split_comma_piece: "CHR '','' \<notin> set p \<Longrightarrow> split_comma p = [p]"
  by (induction p) auto

lemma split_comma_append:
  "CHR '','' \<notin> set p \<Longrightarrow> split_comma (p @ CHR '','' # rest) = p # split_comma rest"
  by (induction p) auto

lemma split_join_comma:
  "pieces \<noteq> [] \<Longrightarrow> list_all (\<lambda>p. CHR '','' \<notin> set p) pieces \<Longrightarrow>
   split_comma (join_comma pieces) = pieces"
  by (induction pieces rule: join_comma.induct)
     (simp_all add: split_comma_piece split_comma_append)

lemma comma_pieces_iff: "comma_pieces line pieces \<longleftrightarrow> pieces = split_comma line"
  unfolding comma_pieces_def
  using split_join_comma [of pieces] join_split_comma [of line] split_comma_not_Nil [of line]
    split_comma_no_comma [of line]
  by auto

text \<open>Stripping is the one way to take a class of characters from both ends.\<close>

lemma strip_where_stripped: "stripped_of p s (strip_where p s)"
proof -
  define s' where "s' = dropWhile p s"
  define t where "t = rev (dropWhile p (rev s'))"
  define b where "b = rev (takeWhile p (rev s'))"
  have t: "strip_where p s = t" by (simp add: strip_where_def t_def s'_def)
  have "t @ b = rev (takeWhile p (rev s') @ dropWhile p (rev s'))"
    unfolding t_def b_def rev_append ..
  then have s': "s' = t @ b" unfolding takeWhile_dropWhile_id by simp
  have s: "s = takeWhile p s @ t @ b" unfolding s' [symmetric] s'_def by simp
  have a: "list_all p (takeWhile p s)" by (simp add: list_all_iff) (metis set_takeWhileD)
  have b: "list_all p b" unfolding b_def by (simp add: list_all_iff) (metis set_takeWhileD)
  have ends: "\<not> p (hd t) \<and> \<not> p (last t)" if "t \<noteq> []"
  proof
    from that s' have "s' \<noteq> []" "hd s' = hd t" by auto
    then show "\<not> p (hd t)" using hd_dropWhile [of p s] by (simp add: s'_def)
    from that have ne: "dropWhile p (rev s') \<noteq> []" by (simp add: t_def)
    then show "\<not> p (last t)" using hd_dropWhile [OF ne] by (simp add: t_def last_rev)
  qed
  show ?thesis unfolding t stripped_of_def
    using s a b ends by blast
qed

lemma stripped_unique:
  assumes "stripped_of p s t"
  shows "t = strip_where p s"
proof -
  from assms obtain a b where s: "s = a @ t @ b" and a: "list_all p a" and b: "list_all p b"
    and ends: "t = [] \<or> \<not> p (hd t) \<and> \<not> p (last t)"
    unfolding stripped_of_def by blast
  show ?thesis
  proof (cases "t = []")
    case True
    from a b have dw: "dropWhile p (a @ b) = []" by (auto simp: list_all_iff)
    have "strip_where p (a @ b) = []" unfolding strip_where_def dw by simp
    with True s show ?thesis by simp
  next
    case False
    with ends have h: "\<not> p (hd t)" and l: "\<not> p (last t)" by simp_all
    from a have "dropWhile p s = dropWhile p (t @ b)"
      unfolding s by (simp add: dropWhile_append2 list_all_iff)
    also from False h have "\<dots> = t @ b" by (cases t) simp_all
    finally have 1: "dropWhile p s = t @ b" .
    from b have "dropWhile p (rev (t @ b)) = dropWhile p (rev t)"
      using dropWhile_append2 [of "rev b" p "rev t"] by (simp add: list_all_iff)
    also from False l have "\<dots> = rev t" by (cases "rev t") (simp_all add: hd_rev)
    finally show ?thesis by (simp add: strip_where_def 1)
  qed
qed

lemma stripped_of_iff: "stripped_of p s t \<longleftrightarrow> t = strip_where p s"
  using strip_where_stripped stripped_unique by blast

lemma list_all2_fun: "list_all2 (\<lambda>x y. y = f x) xs ys \<longleftrightarrow> ys = map f xs"
proof (induction xs arbitrary: ys)
  case Nil
  show ?case by auto
next
  case (Cons x xs)
  then show ?case by (cases ys) auto
qed

lemma spec_fields_iff: "spec_fields line flds \<longleftrightarrow> flds = fields line"
  by (simp add: spec_fields_def comma_pieces_iff stripped_of_iff list_all2_fun fields_def
      py_strip_def strip_quotes_def)

text \<open>The quoted and the inexact header, evaluated, and the three cases of the column index.\<close>

lemma quoted_header: "find_header ''Z(OHM)'' (take 40 quoted_file) 0 = Some 1"
  by (simp add: quoted_file_def)

lemma quoted_fields: \<open>fields (quoted_file ! 1) = [''FREQ'', ''Z(OHM)'', ''X'']\<close>
  by (simp add: quoted_file_def string_defs)

lemma inexact_header: "find_header ''Z(OHM)'' (take 40 inexact_file) 0 = Some 0"
  by (simp add: inexact_file_def)

lemma inexact_fields: "fields (inexact_file ! 0) = [''FREQ'', ''Z(OHM)/k'', ''X'']"
  by (simp add: inexact_file_def string_defs)

lemma column_index_first:
  assumes "col_name \<in> set (fields (lines ! h))"
  shows "\<exists>p. column_index (Some h) lines col_name fallback_col_index = int p \<and>
           p < length (fields (lines ! h)) \<and> fields (lines ! h) ! p = col_name \<and>
           (\<forall>q<p. fields (lines ! h) ! q \<noteq> col_name)"
  using py_index_first [OF assms] assms by (auto simp: column_index_def)

lemma column_index_other:
  "col_name \<notin> set (fields (lines ! h)) \<Longrightarrow>
   column_index (Some h) lines col_name fallback_col_index = fallback_col_index"
  by (simp add: column_index_def)

lemma column_index_None:
  "column_index None lines col_name fallback_col_index = fallback_col_index"
  by (simp add: column_index_def)

lemma header_found:
  "find_header col_name (take 40 lines) 0 = Some h \<longleftrightarrow>
     h < 40 \<and> h < length lines \<and> contains_literal (lines ! h) col_name \<and>
     (\<forall>j<h. \<not> contains_literal (lines ! j) col_name)"
proof -
  have "(\<forall>j<h. \<not> py_in col_name (take 40 lines ! j)) \<longleftrightarrow>
          (\<forall>j<h. \<not> contains_literal (lines ! j) col_name)"
    if "h < 40" "h < length lines"
    using that by (auto simp: py_in_iff)
  then show ?thesis
    unfolding find_header_Some by (auto simp: py_in_iff)
qed

lemma header_absent:
  "find_header col_name (take 40 lines) 0 = None \<longleftrightarrow>
     (\<forall>j. j < 40 \<and> j < length lines \<longrightarrow> \<not> contains_literal (lines ! j) col_name)"
proof -
  have "(\<forall>l\<in>set (take 40 lines). \<not> py_in col_name l) \<longleftrightarrow>
          (\<forall>j<length (take 40 lines). \<not> py_in col_name (take 40 lines ! j))"
    by (simp add: all_set_conv_all_nth)
  then show ?thesis
    unfolding find_header_None by (auto simp: py_in_iff)
qed

text \<open>
  C4. The header location is the index of the first line, among the first 40 lines of
  the file, that contains the column label as a literal substring, and there is none
  when no such line exists. The fields that the code takes from a line are the fields
  of the specification, and only they: the pieces between the commas of the line, each
  stripped of white space and then of double quotes. The column index is the position
  of the first of these fields of the header line that equals the label, when a header
  was found and has such a field; in every other case it is the fallback index.
\<close>

theorem header_and_column:
  "(\<forall>h. find_header col_name (take 40 lines) 0 = Some h \<longleftrightarrow>
          h < 40 \<and> h < length lines \<and> contains_literal (lines ! h) col_name \<and>
          (\<forall>j<h. \<not> contains_literal (lines ! j) col_name)) \<and>
   (find_header col_name (take 40 lines) 0 = None \<longleftrightarrow>
      (\<forall>j. j < 40 \<and> j < length lines \<longrightarrow> \<not> contains_literal (lines ! j) col_name)) \<and>
   (\<forall>line flds. spec_fields line flds \<longleftrightarrow> flds = fields line) \<and>
   (\<forall>h flds. find_header col_name (take 40 lines) 0 = Some h \<and> spec_fields (lines ! h) flds \<and>
        col_name \<in> set flds \<longrightarrow>
      (\<exists>p. column_index (find_header col_name (take 40 lines) 0) lines col_name fallback_col_index
              = int p \<and>
           p < length flds \<and> flds ! p = col_name \<and> (\<forall>q<p. flds ! q \<noteq> col_name))) \<and>
   (\<forall>h flds. find_header col_name (take 40 lines) 0 = Some h \<and> spec_fields (lines ! h) flds \<and>
        col_name \<notin> set flds \<longrightarrow>
      column_index (find_header col_name (take 40 lines) 0) lines col_name fallback_col_index
        = fallback_col_index) \<and>
   (find_header col_name (take 40 lines) 0 = None \<longrightarrow>
      column_index (find_header col_name (take 40 lines) 0) lines col_name fallback_col_index
        = fallback_col_index)"
proof (intro conjI allI impI)
  fix h
  show "find_header col_name (take 40 lines) 0 = Some h \<longleftrightarrow>
        h < 40 \<and> h < length lines \<and> contains_literal (lines ! h) col_name \<and>
        (\<forall>j<h. \<not> contains_literal (lines ! j) col_name)"
    by (rule header_found)
next
  show "find_header col_name (take 40 lines) 0 = None \<longleftrightarrow>
    (\<forall>j. j < 40 \<and> j < length lines \<longrightarrow> \<not> contains_literal (lines ! j) col_name)"
    by (rule header_absent)
next
  fix line flds
  show "spec_fields line flds \<longleftrightarrow> flds = fields line"
    by (rule spec_fields_iff)
next
  fix h flds
  assume a: "find_header col_name (take 40 lines) 0 = Some h \<and> spec_fields (lines ! h) flds \<and>
      col_name \<in> set flds"
  then have flds: "flds = fields (lines ! h)" by (auto simp: spec_fields_iff)
  with a have "col_name \<in> set (fields (lines ! h))" by simp
  from column_index_first [OF this, of fallback_col_index] a
  show "\<exists>p. column_index (find_header col_name (take 40 lines) 0) lines col_name
               fallback_col_index = int p \<and>
            p < length flds \<and> flds ! p = col_name \<and> (\<forall>q<p. flds ! q \<noteq> col_name)"
    unfolding flds by simp
next
  fix h flds
  assume a: "find_header col_name (take 40 lines) 0 = Some h \<and> spec_fields (lines ! h) flds \<and>
      col_name \<notin> set flds"
  then have "col_name \<notin> set (fields (lines ! h))" by (auto simp: spec_fields_iff)
  from column_index_other [OF this, of fallback_col_index] a
  show "column_index (find_header col_name (take 40 lines) 0) lines col_name fallback_col_index
          = fallback_col_index"
    by simp
next
  assume "find_header col_name (take 40 lines) 0 = None"
  then show "column_index (find_header col_name (take 40 lines) 0) lines col_name
      fallback_col_index = fallback_col_index"
    by (simp add: column_index_None)
qed

theorem header_and_column_witness:
  \<open>find_header ''Z(OHM)'' (take 40 sweep_file) 0 = Some 1 \<and>
   contains_literal (sweep_file ! 1) ''Z(OHM)'' \<and>
   \<not> contains_literal (sweep_file ! 0) ''Z(OHM)'' \<and>
   spec_fields '' "FREQ" , "Z(OHM)" ,X'' [''FREQ'', ''Z(OHM)'', ''X''] \<and>
   column_index (find_header ''Z(OHM)'' (take 40 quoted_file) 0) quoted_file ''Z(OHM)'' 2 = 1 \<and>
   spec_fields ''FREQ,Z(OHM)/k,X'' [''FREQ'', ''Z(OHM)/k'', ''X''] \<and>
   column_index (find_header ''Z(OHM)'' (take 40 inexact_file) 0) inexact_file ''Z(OHM)'' 5 = 5 \<and>
   column_index (find_header ''Z(OHM)'' (take 40 bare_file) 0) bare_file ''Z(OHM)'' 2 = 2\<close>
proof -
  note s = header_and_column [of "''Z(OHM)''" sweep_file 2, THEN conjunct1, rule_format, of 1]
  note f = header_and_column [of "''Z(OHM)''" quoted_file 2, THEN conjunct2, THEN conjunct2,
      THEN conjunct1, rule_format]
  note q = header_and_column [of "''Z(OHM)''" quoted_file 2, THEN conjunct2, THEN conjunct2,
      THEN conjunct2, THEN conjunct1, rule_format, of 1 "[''FREQ'', ''Z(OHM)'', ''X'']"]
  note i = header_and_column [of "''Z(OHM)''" inexact_file 5, THEN conjunct2, THEN conjunct2,
      THEN conjunct2, THEN conjunct2, THEN conjunct1, rule_format,
      of 0 "[''FREQ'', ''Z(OHM)/k'', ''X'']"]
  note b = header_and_column [of "''Z(OHM)''" bare_file 2, THEN conjunct2, THEN conjunct2,
      THEN conjunct2, THEN conjunct2, THEN conjunct2, rule_format, OF bare_header]
  from s sweep_header have 1: "contains_literal (sweep_file ! 1) ''Z(OHM)'' \<and>
      (\<forall>j<1. \<not> contains_literal (sweep_file ! j) ''Z(OHM)'')" by simp
  have qf: \<open>spec_fields (quoted_file ! 1) [''FREQ'', ''Z(OHM)'', ''X'']\<close>
    unfolding f by (simp add: quoted_fields del: One_nat_def)
  have qf': \<open>spec_fields '' "FREQ" , "Z(OHM)" ,X'' [''FREQ'', ''Z(OHM)'', ''X'']\<close>
    using qf by (simp add: quoted_file_def)
  have xf: \<open>spec_fields (inexact_file ! 0) [''FREQ'', ''Z(OHM)/k'', ''X'']\<close>
    unfolding f by (simp add: inexact_fields)
  have xf': \<open>spec_fields ''FREQ,Z(OHM)/k,X'' [''FREQ'', ''Z(OHM)/k'', ''X'']\<close>
    using xf by (simp add: inexact_file_def)
  from q quoted_header qf
  obtain p where p: "column_index (find_header ''Z(OHM)'' (take 40 quoted_file) 0) quoted_file
        ''Z(OHM)'' 2 = int p"
      "p < 3" "[''FREQ'', ''Z(OHM)'', ''X''] ! p = ''Z(OHM)''"
    by (auto simp del: One_nat_def)
  from p(2) have "p = 0 \<or> p = 1 \<or> p = 2" by arith
  with p(3) have "p = 1" by auto
  with p(1) have 2: "column_index (find_header ''Z(OHM)'' (take 40 quoted_file) 0) quoted_file
        ''Z(OHM)'' 2 = 1" by simp
  from i inexact_header xf
  have 3: "column_index (find_header ''Z(OHM)'' (take 40 inexact_file) 0) inexact_file
        ''Z(OHM)'' 5 = 5" by simp
  from 1 sweep_header 2 3 b qf' xf' show ?thesis by simp
qed

subsection \<open>One candidate line at a time\<close>

lemma spec_line_value_short:
  "length (fields l) < c + 1 \<Longrightarrow> spec_line_value c l = None"
  by (simp add: spec_line_value_def)

lemma spec_line_value_long:
  "\<not> length (fields l) < c + 1 \<Longrightarrow>
   spec_line_value c l =
     (case py_float (fields l ! c) of
        Some v \<Rightarrow> Some v
      | None \<Rightarrow> py_float (remove_plus (fields l ! c)))"
  by (simp add: spec_line_value_def)

lemma extract_values_by_line:
  "0 \<le> ci \<Longrightarrow>
   extract_values ci ls acc = Inr (acc @ List.map_filter (spec_line_value (nat ci)) ls)"
proof (induction ls arbitrary: acc)
  case Nil
  then show ?case by (simp add: List.map_filter_simps)
next
  case (Cons l ls)
  note ih = Cons.IH [OF Cons.prems]
  show ?case
  proof (cases "int (length (fields l)) \<le> ci")
    case True
    with Cons.prems have "length (fields l) < nat ci + 1" by simp
    then have "spec_line_value (nat ci) l = None" by (rule spec_line_value_short)
    with True ih show ?thesis by (simp add: List.map_filter_simps)
  next
    case False
    with Cons.prems have nth: "py_nth (fields l) ci = Inr (fields l ! nat ci)"
      by (simp add: py_nth_def)
    from False Cons.prems have "\<not> length (fields l) < nat ci + 1" by simp
    note v = spec_line_value_long [OF this]
    show ?thesis
    proof (cases "py_float (fields l ! nat ci)")
      case (Some x)
      with v have "spec_line_value (nat ci) l = Some x" by simp
      with False nth Some ih show ?thesis by (simp add: List.map_filter_simps)
    next
      case None
      show ?thesis
      proof (cases "py_float (remove_plus (fields l ! nat ci))")
        case (Some x)
        with v None have "spec_line_value (nat ci) l = Some x" by simp
        with False nth None Some ih show ?thesis by (simp add: List.map_filter_simps)
      next
        case none2: None
        with v None have "spec_line_value (nat ci) l = None" by simp
        with False nth None none2 ih show ?thesis by (simp add: List.map_filter_simps)
      qed
    qed
  qed
qed

lemma column_index_nonneg: "0 \<le> fb \<Longrightarrow> 0 \<le> column_index h lines col fb"
  by (simp add: column_index_def Let_def split: option.split)

text \<open>
  C5, as the specification states it, is not what the reader does: the length test is
  against the column index in use, not against the fallback index. With the label in
  column 1 of the header and the fallback index 2, a candidate line of two fields has
  fewer than \<open>2 + 1\<close> fields and still gives its value.
\<close>

theorem short_row_is_read:
  \<open>''+2.0E+01, "8e3" '' \<in> set (collect_data_lines (find_header ''Z(OHM)'' (take 40 sweep_file) 0)
                                  sweep_file) \<and>
   int (length (fields ''+2.0E+01, "8e3" '')) < 2 + 1 \<and>
   extract_values (column_index (find_header ''Z(OHM)'' (take 40 sweep_file) 0) sweep_file
                     ''Z(OHM)'' 2)
     [''+2.0E+01, "8e3" ''] [] = Inr [Finite 8000]\<close>
  unfolding sweep_header sweep_data_lines sweep_column
  by (simp add: string_defs float_defs py_nth_def)

text \<open>
  C5, amended. Let \<open>c\<close> be the column index in use (the position of the label in the
  header when it is found there, else the fallback index), the fallback index being a
  position, that is not negative. The value sequence is made line by line: a candidate
  line with fewer than \<open>c + 1\<close> fields gives nothing; any other gives the float of its
  field \<open>c\<close>, read as it is or, failing that, with every plus removed, and nothing when
  both fail. The extraction never raises, and the sequence is the one of the candidate
  lines that have at least \<open>c + 1\<close> fields.
\<close>

theorem values_line_by_line:
  assumes "0 \<le> fallback_col_index"
  shows "\<exists>c. column_index (find_header col_name (take 40 lines) 0) lines col_name
               fallback_col_index = int c \<and>
             parsed_values lines col_name fallback_col_index =
               Inr (List.map_filter (spec_line_value c)
                      (collect_data_lines (find_header col_name (take 40 lines) 0) lines)) \<and>
             List.map_filter (spec_line_value c)
                (collect_data_lines (find_header col_name (take 40 lines) 0) lines) =
             List.map_filter (spec_line_value c)
                (filter (\<lambda>line. c + 1 \<le> length (fields line))
                   (collect_data_lines (find_header col_name (take 40 lines) 0) lines))"
proof -
  let ?ci = "column_index (find_header col_name (take 40 lines) 0) lines col_name fallback_col_index"
  have nn: "0 \<le> ?ci" using assms by (rule column_index_nonneg)
  have skip: "List.map_filter (spec_line_value c) ls =
              List.map_filter (spec_line_value c) (filter (\<lambda>line. c + 1 \<le> length (fields line)) ls)"
    for c ls
  proof (induction ls)
    case Nil
    then show ?case by simp
  next
    case (Cons l ls)
    show ?case
    proof (cases "c + 1 \<le> length (fields l)")
      case True
      with Cons show ?thesis by (simp add: List.map_filter_simps split: option.split)
    next
      case False
      then have "spec_line_value c l = None" by (intro spec_line_value_short) simp
      with False Cons show ?thesis by (simp add: List.map_filter_simps)
    qed
  qed
  from nn have "?ci = int (nat ?ci)" by simp
  moreover have "parsed_values lines col_name fallback_col_index =
      Inr (List.map_filter (spec_line_value (nat ?ci))
             (collect_data_lines (find_header col_name (take 40 lines) 0) lines))"
    unfolding parsed_values_def using extract_values_by_line [OF nn, of _ "[]"] by simp
  ultimately show ?thesis using skip by blast
qed

theorem values_line_by_line_witness:
  "\<exists>c. column_index (find_header ''Z(OHM)'' (take 40 bare_file) 0) bare_file ''Z(OHM)'' 2 = int c \<and>
       parsed_values bare_file ''Z(OHM)'' 2 =
         Inr (List.map_filter (spec_line_value c) [''+1,+2,+30'', '' +7,+8,++90'', ''+1,+2'', ''+1,+2,x'']) \<and>
       parsed_values bare_file ''Z(OHM)'' 2 = Inr [Finite 30, Finite 90]"
proof -
  have "(0::int) \<le> 2" by simp
  from values_line_by_line [OF this, of "''Z(OHM)''" bare_file]
  show ?thesis
    unfolding bare_header bare_data_lines by (auto simp: bare_values)
qed

subsection \<open>The loading loop and its fallback\<close>

lemma dict_set_fresh: "k \<notin> fst ` set d \<Longrightarrow> dict_set d k v = d @ [(k, v)]"
  by (induction d) auto

lemma load_loop_distinct:
  assumes "distinct names" "set names \<inter> fst ` set d = {}"
  shows "load_loop fs names d out =
           (d @ List.map_filter
                  (\<lambda>fn. case read_configured fs fn of Inr avg \<Rightarrow> Some (fn, avg) | Inl e \<Rightarrow> None)
                  names,
            out @ map (\<lambda>fn. case fs fn of
                               None \<Rightarrow> NotFoundSkipped fn
                             | Some lines \<Rightarrow>
                                 (case read_configured fs fn of
                                    Inr avg \<Rightarrow> Loaded fn
                                  | Inl e \<Rightarrow> ErrorReading fn e))
                      names)"
  using assms
proof (induction names arbitrary: d out)
  case Nil
  then show ?case by (simp add: List.map_filter_simps)
next
  case (Cons fn fns)
  from Cons.prems have fresh: "fn \<notin> fst ` set d" and d1: "distinct fns"
    and rest: "set fns \<inter> fst ` set d = {}" by auto
  show ?case
  proof (cases "fs fn")
    case None
    then have "read_configured fs fn = Inl (Error FileNotFoundError fn)"
      by (simp add: read_configured_def read_missing)
    with None Cons.IH [OF d1 rest] show ?thesis by (simp add: List.map_filter_simps)
  next
    case (Some lines)
    show ?thesis
    proof (cases "read_configured fs fn")
      case (Inl e)
      with Some Cons.IH [OF d1 rest] show ?thesis by (simp add: List.map_filter_simps)
    next
      case (Inr avg)
      from Cons.prems have "set fns \<inter> fst ` set (d @ [(fn, avg)]) = {}" by auto
      from Cons.IH [OF d1 this] Some Inr fresh show ?thesis
        by (simp add: List.map_filter_simps dict_set_fresh)
    qed
  qed
qed

lemma TO_LOAD_distinct: "distinct TO_LOAD"
  by (simp add: TO_LOAD_def)

lemma demo_values:
  "demo =
     [(''demo_baseline'', map (\<lambda>f. Finite (20 + 0.3 * f)) [10, 20, 30, 40, 50, 60, 70, 80, 90, 100]),
      (''demo_postwash'',
         map (\<lambda>f. Finite ((20 + 0.3 * f) * 1.25)) [10, 20, 30, 40, 50, 60, 70, 80, 90, 100]),
      (''demo_hydrogel'',
         map (\<lambda>f. Finite ((20 + 0.3 * f) * 0.9)) [10, 20, 30, 40, 50, 60, 70, 80, 90, 100])]"
  by (simp add: demo_def base_def freq_def upt_rec)

lemma list9_fails:
  "read_configured example_fs ''LIST0009.CSV'' =
     Inl (Error ValueError (not_enough_msg ''LIST0009.CSV'' 2 10))"
proof -
  have "reshape_average ''LIST0009.CSV'' 10 (Some 100) (Finite (1 / 1000)) [Finite 30, Finite 90]
          = Inl (Error ValueError (not_enough_msg ''LIST0009.CSV'' 2 10))"
    by (simp add: reshape_average_short py_slice_to_def eval_nat_numeral)
  then show ?thesis
    unfolding read_configured_def
    by (simp add: read_unfold [where fs = example_fs and path = "''LIST0009.CSV''",
          OF example_fs_lookup(5)] bare_header bare_data_lines bare_values)
qed

text \<open>
  C8. The loop goes through every configured name: a name with no file is reported and
  skipped, a file on which the reader raises is reported and the loop goes on, and the
  dict holds, in order, the names whose file was read, each with its vector. When the
  dict is still empty after the loop, nothing is raised: the result is the three
  synthetic curves, the baseline \<open>20 + 0.3 * freq\<close> over the frequencies 10, 20, ... 100,
  and that curve times 1.25 and times 0.9.
\<close>

theorem batch_fallback:
  "fst (load_loop fs TO_LOAD [] []) =
     List.map_filter (\<lambda>fn. case read_configured fs fn of Inr avg \<Rightarrow> Some (fn, avg) | Inl e \<Rightarrow> None)
       TO_LOAD \<and>
   snd (load_loop fs TO_LOAD [] []) =
     map (\<lambda>fn. case fs fn of
                  None \<Rightarrow> NotFoundSkipped fn
                | Some lines \<Rightarrow>
                    (case read_configured fs fn of
                       Inr avg \<Rightarrow> Loaded fn
                     | Inl e \<Rightarrow> ErrorReading fn e))
         TO_LOAD \<and>
   ((\<forall>fn \<in> set TO_LOAD. fs fn = None \<or> (\<exists>e. read_configured fs fn = Inl e)) \<longrightarrow>
      fst (loaded fs) =
        [(''demo_baseline'',
            map (\<lambda>f. Finite (20 + 0.3 * f)) [10, 20, 30, 40, 50, 60, 70, 80, 90, 100]),
         (''demo_postwash'',
            map (\<lambda>f. Finite ((20 + 0.3 * f) * 1.25)) [10, 20, 30, 40, 50, 60, 70, 80, 90, 100]),
         (''demo_hydrogel'',
            map (\<lambda>f. Finite ((20 + 0.3 * f) * 0.9)) [10, 20, 30, 40, 50, 60, 70, 80, 90, 100])]) \<and>
   (fst (load_loop fs TO_LOAD [] []) \<noteq> [] \<longrightarrow> fst (loaded fs) = fst (load_loop fs TO_LOAD [] []))"
proof -
  note run = load_loop_distinct [OF TO_LOAD_distinct, of "[]" fs "[]", simplified]
  have none: "List.map_filter
        (\<lambda>fn. case read_configured fs fn of Inr avg \<Rightarrow> Some (fn, avg) | Inl e \<Rightarrow> None) names = []"
    if "\<forall>fn \<in> set names. fs fn = None \<or> (\<exists>e. read_configured fs fn = Inl e)" for names
    using that
  proof (induction names)
    case Nil
    then show ?case by (simp add: List.map_filter_simps)
  next
    case (Cons fn fns)
    then have "\<exists>e. read_configured fs fn = Inl e"
      by (auto simp: read_configured_def read_missing)
    with Cons show ?case by (auto simp: List.map_filter_simps)
  qed
  have empty: "fst (loaded fs) = demo"
    if "\<forall>fn \<in> set TO_LOAD. fs fn = None \<or> (\<exists>e. read_configured fs fn = Inl e)"
    using none [OF that] by (simp add: loaded_def run)
  have kept: "fst (loaded fs) = fst (load_loop fs TO_LOAD [] [])"
    if "fst (load_loop fs TO_LOAD [] []) \<noteq> []"
    using that by (auto simp: loaded_def split: prod.split)
  from run empty kept show ?thesis
    unfolding demo_values by simp
qed

theorem batch_fallback_witness:
  "fst (loaded example_fs) =
     [(''demo_baseline'',
         [Finite 23, Finite 26, Finite 29, Finite 32, Finite 35, Finite 38, Finite 41, Finite 44,
          Finite 47, Finite 50]),
      (''demo_postwash'',
         [Finite 28.75, Finite 32.5, Finite 36.25, Finite 40, Finite 43.75, Finite 47.5,
          Finite 51.25, Finite 55, Finite 58.75, Finite 62.5]),
      (''demo_hydrogel'',
         [Finite 20.7, Finite 23.4, Finite 26.1, Finite 28.8, Finite 31.5, Finite 34.2,
          Finite 36.9, Finite 39.6, Finite 42.3, Finite 45])] \<and>
   snd (load_loop example_fs TO_LOAD [] []) ! 2 =
     ErrorReading ''LIST0009.CSV'' (Error ValueError (not_enough_msg ''LIST0009.CSV'' 2 10)) \<and>
   snd (load_loop example_fs TO_LOAD [] []) ! 3 = NotFoundSkipped ''LIST0022.CSV''"
proof -
  have all_fail: "\<forall>fn \<in> set TO_LOAD.
      example_fs fn = None \<or> (\<exists>e. read_configured example_fs fn = Inl e)"
    using list9_fails by (simp add: TO_LOAD_def example_fs_def)
  note b = batch_fallback [of example_fs]
  from b all_fail have d: "fst (loaded example_fs) =
        [(''demo_baseline'',
            map (\<lambda>f. Finite (20 + 0.3 * f)) [10, 20, 30, 40, 50, 60, 70, 80, 90, 100]),
         (''demo_postwash'',
            map (\<lambda>f. Finite ((20 + 0.3 * f) * 1.25)) [10, 20, 30, 40, 50, 60, 70, 80, 90, 100]),
         (''demo_hydrogel'',
            map (\<lambda>f. Finite ((20 + 0.3 * f) * 0.9)) [10, 20, 30, 40, 50, 60, 70, 80, 90, 100])]"
    by blast
  from b have o: "snd (load_loop example_fs TO_LOAD [] []) =
     map (\<lambda>fn. case example_fs fn of
                  None \<Rightarrow> NotFoundSkipped fn
                | Some lines \<Rightarrow>
                    (case read_configured example_fs fn of
                       Inr avg \<Rightarrow> Loaded fn
                     | Inl e \<Rightarrow> ErrorReading fn e))
         TO_LOAD"
    by blast
  have o2: "snd (load_loop example_fs TO_LOAD [] []) ! 2 =
     ErrorReading ''LIST0009.CSV'' (Error ValueError (not_enough_msg ''LIST0009.CSV'' 2 10))"
    unfolding o by (simp add: TO_LOAD_def example_fs_lookup list9_fails)
  have o3: "snd (load_loop example_fs TO_LOAD [] []) ! 3 = NotFoundSkipped ''LIST0022.CSV''"
    unfolding o by (simp add: TO_LOAD_def example_fs_def)
  from d o2 o3 show ?thesis by simp
qed

end
